theory Spec2Isabelle
  imports Complex_Main
begin

section \<open>Cells, rows and objects\<close>

text \<open>
  The development embeds \<^verbatim>\<open>src/services/dataProcessor.ts\<close>. A cell of a
  \<^verbatim>\<open>TableRow\<close> is \<^verbatim>\<open>string | number | null | undefined\<close>, as the type is declared;
  the booleans that the parser's dynamic typing can deliver are outside that type and
  outside the model. Numbers are modelled as exact rationals: rounding, signed zero,
  infinities and a not-a-number \<^emph>\<open>cell\<close> are not represented (the JSON round trip of
  line 70 turns the latter two into \<^verbatim>\<open>null\<close> anyway). A not-a-number \<^emph>\<open>result\<close> of a
  conversion is \<open>None\<close>. A string is a list of code units below 256, one \<open>char\<close> each;
  a string with a code unit from 256 on is outside the model. Among these code units,
  \<^verbatim>\<open>trim\<close> and \<^verbatim>\<open>\s\<close> take 9 to 13, 32 and 160 for white space.

  An object is an association list in the order \<^verbatim>\<open>Object.keys\<close> enumerates it: keys
  that are array indices first, ascending, then the other keys in insertion order.
  The count map of line 113 is a plain \<^verbatim>\<open>{}\<close> that is read and written under keys taken
  from the data, so what it inherits from \<^verbatim>\<open>Object.prototype\<close> is modelled (section
  \<open>processData\<close>). A row is read under the keys of the first row only; a row that lacks
  such a key reads as \<^verbatim>\<open>undefined\<close> there, inherited names are not modelled for rows.
\<close>

datatype cell = NumV rat | StrV string | Null | Undefined

type_synonym TableRow = "(string \<times> cell) list"

definition isDigit :: "char \<Rightarrow> bool" where
  "isDigit c = (48 \<le> (of_char c :: nat) \<and> (of_char c :: nat) \<le> 57)"

definition digitsValue :: "string \<Rightarrow> int" where
  "digitsValue s = foldl (\<lambda>n c. 10 * n + (of_char c - 48)) 0 s"

text \<open>The array indices of ECMAScript: canonical decimal numerals below \<open>2^32 - 1\<close>.\<close>

definition arrayIndex :: "string \<Rightarrow> int option" where
  "arrayIndex s =
     (if s \<noteq> [] \<and> list_all isDigit s \<and> (length s = 1 \<or> hd s \<noteq> CHR ''0'')
         \<and> digitsValue s < 4294967295
      then Some (digitsValue s) else None)"

definition objectKeys :: "(string \<times> 'v) list \<Rightarrow> string list" where
  "objectKeys obj = map fst obj"

text \<open>\<^verbatim>\<open>obj[k]\<close>: a property that is not there reads as \<^verbatim>\<open>undefined\<close>.\<close>

definition getProp :: "string \<Rightarrow> TableRow \<Rightarrow> cell" where
  "getProp k row = (case map_of row k of Some v \<Rightarrow> v | None \<Rightarrow> Undefined)"

fun insertIndexKey :: "int \<Rightarrow> string \<Rightarrow> 'v \<Rightarrow> (string \<times> 'v) list \<Rightarrow> (string \<times> 'v) list" where
  "insertIndexKey n k v [] = [(k, v)]"
| "insertIndexKey n k v (p # ps) =
     (case arrayIndex (fst p) of
        Some m \<Rightarrow> if m < n then p # insertIndexKey n k v ps else (k, v) # p # ps
      | None \<Rightarrow> (k, v) # p # ps)"

fun replaceProp :: "string \<Rightarrow> 'v \<Rightarrow> (string \<times> 'v) list \<Rightarrow> (string \<times> 'v) list" where
  "replaceProp k v [] = []"
| "replaceProp k v (p # ps) = (if fst p = k then (k, v) # ps else p # replaceProp k v ps)"

text \<open>\<^verbatim>\<open>obj[k] = v\<close>: an existing property keeps its place, a new one is created.\<close>

definition setProp :: "string \<Rightarrow> 'v \<Rightarrow> (string \<times> 'v) list \<Rightarrow> (string \<times> 'v) list" where
  "setProp k v obj =
     (if k \<in> set (map fst obj) then replaceProp k v obj
      else case arrayIndex k of
             Some n \<Rightarrow> insertIndexKey n k v obj
           | None \<Rightarrow> obj @ [(k, v)])"

definition isWS :: "char \<Rightarrow> bool" where
  "isWS c = (c \<in> set [CHR 0x09, CHR 0x0A, CHR 0x0B, CHR 0x0C, CHR 0x0D, CHR 0x20, CHR 0xA0])"

definition trim :: "string \<Rightarrow> string" where
  "trim s = rev (dropWhile isWS (rev (dropWhile isWS s)))"

text \<open>\<^verbatim>\<open>text.split(/\s+/)\<close>: the pieces between maximal runs of white space.\<close>

function splitWS :: "string \<Rightarrow> string \<Rightarrow> string list" where
  "splitWS cur [] = [cur]"
| "splitWS cur (c # cs) =
     (if isWS c then cur # splitWS [] (dropWhile isWS cs) else splitWS (cur @ [c]) cs)"
  by pat_completeness auto
termination
  by (relation "measure (\<lambda>(cur, s). length s)")
     (auto simp: le_imp_less_Suc length_dropWhile_le)

definition wordCount :: "string \<Rightarrow> nat" where
  "wordCount text = length (filter (\<lambda>w. w \<noteq> []) (splitWS [] text))"

section \<open>The host runtime\<close>

text \<open>
  What the code takes from the JavaScript runtime and the standard does not fix, or
  fixes at length, is a parameter: the numeric value of a non-blank string
  (\<^verbatim>\<open>Number\<close>), \<^verbatim>\<open>Date.parse\<close>, the local-time fields of a time value, the printing
  of numbers (\<^verbatim>\<open>String\<close>, \<^verbatim>\<open>toFixed(2)\<close>), and the properties of \<^verbatim>\<open>Object.prototype\<close>.
  Time values are milliseconds as \<open>int\<close>.

  A property of \<^verbatim>\<open>Object.prototype\<close> is a function, given by the text it converts to, or
  the accessor \<^verbatim>\<open>__proto__\<close>: read, it gives \<^verbatim>\<open>Object.prototype\<close> itself, which converts to
  \<^verbatim>\<open>[object Object]\<close>; assigned a string, it does nothing.
\<close>

datatype inherited = FunctionProp string | ProtoAccessor

record runtime =
  strNumericLiteral :: "string \<Rightarrow> rat option"
  dateParse :: "string \<Rightarrow> int option"
  getFullYear :: "int \<Rightarrow> int"
  getMonth :: "int \<Rightarrow> int"
  getDate :: "int \<Rightarrow> int"
  numberToString :: "rat \<Rightarrow> string"
  toFixed2 :: "rat \<Rightarrow> string"
  objectPrototype :: "string \<Rightarrow> inherited option"

text \<open>\<^verbatim>\<open>Number(v)\<close>; \<open>None\<close> is \<^verbatim>\<open>NaN\<close>. A blank string and \<^verbatim>\<open>null\<close> convert to 0.\<close>

fun Number :: "runtime \<Rightarrow> cell \<Rightarrow> rat option" where
  "Number rt (NumV n) = Some n"
| "Number rt (StrV s) = (if trim s = [] then Some 0 else strNumericLiteral rt (trim s))"
| "Number rt Null = Some 0"
| "Number rt Undefined = None"

text \<open>\<^verbatim>\<open>new Date(v)\<close>; \<open>None\<close> is an invalid date.\<close>

definition timeClip :: "rat \<Rightarrow> int option" where
  "timeClip n =
     (if \<bar>n\<bar> > 8640000000000000 then None
      else Some (if 0 \<le> n then \<lfloor>n\<rfloor> else \<lceil>n\<rceil>))"

fun newDate :: "runtime \<Rightarrow> cell \<Rightarrow> int option" where
  "newDate rt (StrV s) = dateParse rt s"
| "newDate rt (NumV n) = timeClip n"
| "newDate rt Null = Some 0"
| "newDate rt Undefined = None"

section \<open>The report types\<close>

datatype ColumnType = NUMERIC | CATEGORICAL | DATE | TEXT | UNKNOWN

record ColumnStats =
  mean :: "rat option"
  median :: "rat option"
  stdDev :: "rat option"
  min_stat :: "rat option"
  max_stat :: "rat option"
  mode :: "string option"
  uniqueValues :: "nat option"

record ColumnAnalysis =
  name :: string
  ctype :: ColumnType
  missingCount :: nat
  stats :: ColumnStats

record CleaningAction =
  column :: string
  action :: string
  details :: string

record FeatureEngineeringInfo =
  sourceColumn :: string
  newColumns :: "string list"
  description :: string

record AnalysisReport =
  fileName :: string
  initialRows :: nat
  cleanedRows :: nat
  initialCols :: nat
  cleanedCols :: nat
  processingTime :: rat
  columnAnalyses :: "ColumnAnalysis list"
  cleaningActions :: "CleaningAction list"
  featureEngineering :: "FeatureEngineeringInfo list"

datatype error = Error string

section \<open>parseCSV\<close>

text \<open>
  PapaParse is outside the repository. Its outcome is an input of the model: either the
  \<^verbatim>\<open>complete\<close> callback with the messages of \<^verbatim>\<open>results.errors\<close> and the rows of
  \<^verbatim>\<open>results.data\<close>, or the \<^verbatim>\<open>error\<close> callback with the parser's error.
\<close>

datatype papa = Complete "string list" "TableRow list" | Failed error

fun parseCSV :: "papa \<Rightarrow> error + TableRow list" where
  "parseCSV (Complete errors rows) =
     (case errors of
        [] \<Rightarrow> Inr rows
      | m # _ \<Rightarrow> Inl (Error (''CSV Parsing Error: '' @ m)))"
| "parseCSV (Failed e) = Inl e"

section \<open>inferColumnType\<close>

fun isMissing :: "cell \<Rightarrow> bool" where
  "isMissing Null = True"
| "isMissing Undefined = True"
| "isMissing (StrV s) = (s = [])"
| "isMissing (NumV n) = False"

fun looksNumeric :: "runtime \<Rightarrow> cell \<Rightarrow> bool" where
  "looksNumeric rt (NumV n) = True"
| "looksNumeric rt (StrV s) = (Number rt (StrV s) \<noteq> None \<and> trim s \<noteq> [])"
| "looksNumeric rt Null = False"
| "looksNumeric rt Undefined = False"

fun looksDate :: "runtime \<Rightarrow> cell \<Rightarrow> bool" where
  "looksDate rt (StrV s) = (dateParse rt s \<noteq> None)"
| "looksDate rt (NumV n) = False"
| "looksDate rt Null = False"
| "looksDate rt Undefined = False"

definition nonNullValuesOf :: "cell list \<Rightarrow> cell list" where
  "nonNullValuesOf values = filter (\<lambda>v. \<not> isMissing v) values"

definition inferColumnType :: "runtime \<Rightarrow> cell list \<Rightarrow> ColumnType" where
  "inferColumnType rt values =
     (let nonNullValues = nonNullValuesOf values in
      if length nonNullValues = 0 then UNKNOWN
      else if list_all (looksNumeric rt) nonNullValues then NUMERIC
      else if list_all (looksDate rt) nonNullValues then DATE
      else if (of_nat (length (remdups nonNullValues)) :: rat) / of_nat (length nonNullValues) < 1 / 2
              \<and> length nonNullValues > 10 then CATEGORICAL
      else TEXT)"

section \<open>processData\<close>

text \<open>\<^verbatim>\<open>JSON.parse(JSON.stringify(rawData))\<close> drops the properties whose value is
  \<^verbatim>\<open>undefined\<close> and keeps the rest in order.\<close>

definition jsonClone :: "TableRow list \<Rightarrow> TableRow list" where
  "jsonClone rows = map (filter (\<lambda>p. snd p \<noteq> Undefined)) rows"

definition numericValuesOf :: "runtime \<Rightarrow> cell list \<Rightarrow> rat list" where
  "numericValuesOf rt values = List.map_filter (Number rt) values"

fun stringOf :: "cell \<Rightarrow> string option" where
  "stringOf (StrV s) = (if trim s \<noteq> [] then Some s else None)"
| "stringOf (NumV n) = None"
| "stringOf Null = None"
| "stringOf Undefined = None"

definition stringValuesOf :: "cell list \<Rightarrow> string list" where
  "stringValuesOf values = List.map_filter stringOf values"

text \<open>\<^verbatim>\<open>sum / numericValues.length || 0\<close>: a quotient that is \<^verbatim>\<open>NaN\<close> or 0 gives 0.\<close>

definition meanOf :: "rat list \<Rightarrow> rat" where
  "meanOf numericValues =
     (if length numericValues = 0 then 0
      else foldl (+) 0 numericValues / of_nat (length numericValues))"

text \<open>The median of the sorted values; \<open>None\<close> is the \<^verbatim>\<open>NaN\<close> of an empty array.\<close>

definition medianOf :: "rat list \<Rightarrow> rat option" where
  "medianOf xs =
     (let n = length xs in
      if n = 0 then None
      else if n mod 2 = 0 then Some ((xs ! (n div 2 - 1) + xs ! (n div 2)) / 2)
      else Some (xs ! (n div 2)))"

definition firstOf :: "rat list \<Rightarrow> rat option" where
  "firstOf xs = (case xs of [] \<Rightarrow> None | x # _ \<Rightarrow> Some x)"

definition lastOf :: "rat list \<Rightarrow> rat option" where
  "lastOf xs = (if xs = [] then None else Some (last xs))"

text \<open>
  Lines 113-115. A value of the count map is a number or, once a key has met an inherited
  property, a string. \<^verbatim>\<open>counts[k]\<close> gives the own value, else the inherited property, else
  \<^verbatim>\<open>undefined\<close>.
\<close>

datatype countValue = Count nat | Text string

datatype lookup = Own countValue | Inherited inherited | Absent

definition readCount :: "runtime \<Rightarrow> (string \<times> countValue) list \<Rightarrow> string \<Rightarrow> lookup" where
  "readCount rt counts k =
     (case map_of counts k of
        Some v \<Rightarrow> Own v
      | None \<Rightarrow> (case objectPrototype rt k of Some p \<Rightarrow> Inherited p | None \<Rightarrow> Absent))"

text \<open>\<^verbatim>\<open>(x || 0) + 1\<close>: a number is incremented, \<^verbatim>\<open>undefined\<close> gives 1, and a string, a
  function or an object is converted to its text and gets \<^verbatim>\<open>1\<close> appended.\<close>

fun bumped :: "lookup \<Rightarrow> countValue" where
  "bumped (Own (Count n)) = Count (n + 1)"
| "bumped (Own (Text s)) = (if s = [] then Count 1 else Text (s @ ''1''))"
| "bumped (Inherited (FunctionProp t)) = Text (t @ ''1'')"
| "bumped (Inherited ProtoAccessor) = Text ''[object Object]1''"
| "bumped Absent = Count 1"

text \<open>\<^verbatim>\<open>counts[v] = (counts[v] || 0) + 1\<close>. Under \<^verbatim>\<open>__proto__\<close> the assignment goes to the
  inherited setter and creates no property.\<close>

definition countStep ::
  "runtime \<Rightarrow> (string \<times> countValue) list \<Rightarrow> string \<Rightarrow> (string \<times> countValue) list" where
  "countStep rt counts v =
     (if map_of counts v = None \<and> objectPrototype rt v = Some ProtoAccessor then counts
      else setProp v (bumped (readCount rt counts v)) counts)"

definition countsOf :: "runtime \<Rightarrow> string list \<Rightarrow> (string \<times> countValue) list" where
  "countsOf rt stringValues = foldl (countStep rt) [] stringValues"

text \<open>
  \<^verbatim>\<open>counts[a] > counts[b]\<close>. Both sides are converted to primitives; two strings are compared
  as strings, code unit by code unit; otherwise both are converted to numbers, and the
  comparison is false when one of them is \<^verbatim>\<open>NaN\<close>.
\<close>

datatype prim = PNum rat | PStr string | PUndefined

fun toPrimitive :: "lookup \<Rightarrow> prim" where
  "toPrimitive (Own (Count n)) = PNum (of_nat n)"
| "toPrimitive (Own (Text s)) = PStr s"
| "toPrimitive (Inherited (FunctionProp t)) = PStr t"
| "toPrimitive (Inherited ProtoAccessor) = PStr ''[object Object]''"
| "toPrimitive Absent = PUndefined"

fun primToNumber :: "runtime \<Rightarrow> prim \<Rightarrow> rat option" where
  "primToNumber rt (PNum r) = Some r"
| "primToNumber rt (PStr s) = Number rt (StrV s)"
| "primToNumber rt PUndefined = None"

fun stringLess :: "string \<Rightarrow> string \<Rightarrow> bool" where
  "stringLess [] [] = False"
| "stringLess [] (y # ys) = True"
| "stringLess (x # xs) [] = False"
| "stringLess (x # xs) (y # ys) =
     ((of_char x :: nat) < of_char y \<or> (x = y \<and> stringLess xs ys))"

fun primGreater :: "runtime \<Rightarrow> prim \<Rightarrow> prim \<Rightarrow> bool" where
  "primGreater rt (PStr s) (PStr t) = stringLess t s"
| "primGreater rt p q =
     (case primToNumber rt p of
        None \<Rightarrow> False
      | Some a \<Rightarrow> (case primToNumber rt q of None \<Rightarrow> False | Some b \<Rightarrow> b < a))"

definition jsGreater :: "runtime \<Rightarrow> lookup \<Rightarrow> lookup \<Rightarrow> bool" where
  "jsGreater rt x y = primGreater rt (toPrimitive x) (toPrimitive y)"

text \<open>Line 115: the \<^verbatim>\<open>reduce\<close> over \<^verbatim>\<open>Object.keys(counts)\<close>, started at \<^verbatim>\<open>''\<close>.\<close>

definition modeOf :: "runtime \<Rightarrow> (string \<times> countValue) list \<Rightarrow> string" where
  "modeOf rt counts =
     foldl (\<lambda>a b. if jsGreater rt (readCount rt counts a) (readCount rt counts b) then a else b)
       [] (objectKeys counts)"

text \<open>Lines 103-107 and 120-124: the same loop, with the mean or the mode.\<close>

definition fillMissing :: "string \<Rightarrow> cell \<Rightarrow> TableRow list \<Rightarrow> TableRow list" where
  "fillMissing header fill rows =
     map (\<lambda>row. if isMissing (getProp header row) then setProp header fill row else row) rows"

definition emptyStats :: ColumnStats where
  "emptyStats = \<lparr>mean = None, median = None, stdDev = None, min_stat = None,
     max_stat = None, mode = None, uniqueValues = None\<rparr>"

text \<open>Lines 92-129: the statistics of the column, the rows after imputation and the
  cleaning actions pushed.\<close>

definition cleanStage ::
  "runtime \<Rightarrow> string \<Rightarrow> ColumnType \<Rightarrow> cell list \<Rightarrow> nat \<Rightarrow> TableRow list
     \<Rightarrow> ColumnStats \<times> TableRow list \<times> CleaningAction list" where
  "cleanStage rt header type values missing rows =
     (let numericValues = numericValuesOf rt values;
          stringValues = stringValuesOf values
      in case type of
        NUMERIC \<Rightarrow>
          (let m = meanOf numericValues;
               ascending = sort numericValues;
               st = emptyStats\<lparr>mean := Some m, median := medianOf ascending,
                      min_stat := firstOf ascending, max_stat := lastOf ascending\<rparr>
           in if missing > 0
              then (st, fillMissing header (NumV m) rows,
                    [\<lparr>column = header, action = ''Filled missing values'',
                      details = ''Used mean ('' @ toFixed2 rt m @ '')''\<rparr>])
              else (st, rows, []))
      | CATEGORICAL \<Rightarrow>
          (let md = modeOf rt (countsOf rt stringValues);
               st = emptyStats\<lparr>mode := Some md,
                      uniqueValues := Some (length (remdups stringValues))\<rparr>
           in if missing > 0
              then (st, fillMissing header (StrV md) rows,
                    [\<lparr>column = header, action = ''Filled missing values'',
                      details = ''Used mode ('' @ [CHR 0x27] @ md @ [CHR 0x27] @ '')''\<rparr>])
              else (st, rows, []))
      | DATE \<Rightarrow>
          (let md = modeOf rt (countsOf rt stringValues);
               st = emptyStats\<lparr>mode := Some md,
                      uniqueValues := Some (length (remdups stringValues))\<rparr>
           in if missing > 0
              then (st, fillMissing header (StrV md) rows,
                    [\<lparr>column = header, action = ''Filled missing values'',
                      details = ''Used mode ('' @ [CHR 0x27] @ md @ [CHR 0x27] @ '')''\<rparr>])
              else (st, rows, []))
      | TEXT \<Rightarrow>
          (emptyStats\<lparr>uniqueValues := Some (length (remdups stringValues))\<rparr>, rows, [])
      | UNKNOWN \<Rightarrow> (emptyStats, rows, []))"

text \<open>Lines 137-144, for one row.\<close>

definition dateFeatures :: "runtime \<Rightarrow> string \<Rightarrow> TableRow \<Rightarrow> TableRow" where
  "dateFeatures rt header row =
     (case newDate rt (getProp header row) of
        None \<Rightarrow> row
      | Some t \<Rightarrow>
          setProp (header @ ''_day'') (NumV (of_int (getDate rt t)))
            (setProp (header @ ''_month'') (NumV (of_int (getMonth rt t + 1)))
              (setProp (header @ ''_year'') (NumV (of_int (getFullYear rt t))) row)))"

text \<open>\<^verbatim>\<open>String(v || '')\<close>: every falsy value reads as the empty string.\<close>

fun textOf :: "runtime \<Rightarrow> cell \<Rightarrow> string" where
  "textOf rt (NumV n) = (if n = 0 then [] else numberToString rt n)"
| "textOf rt (StrV s) = s"
| "textOf rt Null = []"
| "textOf rt Undefined = []"

text \<open>Lines 150-152, for one row.\<close>

definition textFeatures :: "runtime \<Rightarrow> string \<Rightarrow> TableRow \<Rightarrow> TableRow" where
  "textFeatures rt header row =
     (let text = textOf rt (getProp header row) in
      setProp (header @ ''_word_count'') (NumV (of_nat (wordCount text)))
        (setProp (header @ ''_length'') (NumV (of_nat (length text))) row))"

text \<open>Lines 134-155: the rows after feature synthesis and the entries pushed.\<close>

definition featureStage ::
  "runtime \<Rightarrow> string \<Rightarrow> ColumnType \<Rightarrow> TableRow list
     \<Rightarrow> TableRow list \<times> FeatureEngineeringInfo list" where
  "featureStage rt header type rows =
     (if type = DATE then
        (map (dateFeatures rt header) rows,
         [\<lparr>sourceColumn = header,
           newColumns = [header @ ''_year'', header @ ''_month'', header @ ''_day''],
           description = ''Extracted date parts''\<rparr>])
      else if type = TEXT then
        (map (textFeatures rt header) rows,
         [\<lparr>sourceColumn = header,
           newColumns = [header @ ''_length'', header @ ''_word_count''],
           description = ''Calculated text metrics''\<rparr>])
      else (rows, []))"

text \<open>The working state of the loop of line 76: the rows being cleaned and the three logs.\<close>

record work =
  cleanedData :: "TableRow list"
  analyses :: "ColumnAnalysis list"
  actions :: "CleaningAction list"
  features :: "FeatureEngineeringInfo list"

definition initialWork :: "TableRow list \<Rightarrow> work" where
  "initialWork rows = \<lparr>cleanedData = rows, analyses = [], actions = [], features = []\<rparr>"

definition columnValues :: "string \<Rightarrow> TableRow list \<Rightarrow> cell list" where
  "columnValues header rows = map (getProp header) rows"

definition missingCountOf :: "cell list \<Rightarrow> nat" where
  "missingCountOf values = length (filter isMissing values)"

text \<open>One iteration of the loop, lines 77-155.\<close>

definition processColumn :: "runtime \<Rightarrow> string \<Rightarrow> work \<Rightarrow> work" where
  "processColumn rt header st =
     (let values = columnValues header (cleanedData st);
          type = inferColumnType rt values;
          missing = missingCountOf values;
          (statistics, imputed, acts) = cleanStage rt header type values missing (cleanedData st);
          analysis = \<lparr>name = header, ctype = type, missingCount = missing, stats = statistics\<rparr>;
          (rows', infos) = featureStage rt header type imputed
      in \<lparr>cleanedData = rows', analyses = analyses st @ [analysis],
          actions = actions st @ acts, features = features st @ infos\<rparr>)"

text \<open>
  \<^verbatim>\<open>processData\<close>, with the file's name, the parser's outcome and the two clock readings
  as inputs. \<^verbatim>\<open>Object.keys(cleanedData[0])\<close> throws a \<^verbatim>\<open>TypeError\<close> on an empty array.
\<close>

definition processData ::
  "runtime \<Rightarrow> string \<Rightarrow> papa \<Rightarrow> rat \<Rightarrow> rat \<Rightarrow> error + (AnalysisReport \<times> TableRow list)" where
  "processData rt file outcome startTime endTime =
     (case parseCSV outcome of
        Inl e \<Rightarrow> Inl e
      | Inr rawData \<Rightarrow>
          (case rawData of
             [] \<Rightarrow> Inl (Error ''CSV file is empty or contains only headers.'')
           | row0 # _ \<Rightarrow>
               (let headers = objectKeys row0;
                    st = foldl (\<lambda>st header. processColumn rt header st)
                           (initialWork (jsonClone rawData)) headers
                in case cleanedData st of
                     [] \<Rightarrow> Inl (Error ''TypeError: Cannot convert undefined or null to object'')
                   | first # _ \<Rightarrow>
                       Inr (\<lparr>fileName = file, initialRows = length rawData,
                             cleanedRows = length (cleanedData st),
                             initialCols = length headers,
                             cleanedCols = length (objectKeys first),
                             processingTime = (endTime - startTime) / 1000,
                             columnAnalyses = analyses st,
                             cleaningActions = actions st,
                             featureEngineering = features st\<rparr>,
                            cleanedData st))))"

section \<open>Notions used in the statements\<close>

text \<open>The value that lines 105 and 122 write into the missing cells of a column.\<close>

definition fillValue :: "runtime \<Rightarrow> ColumnType \<Rightarrow> cell list \<Rightarrow> cell" where
  "fillValue rt type values =
     (if type = NUMERIC then NumV (meanOf (numericValuesOf rt values))
      else StrV (modeOf rt (countsOf rt (stringValuesOf values))))"

text \<open>The column types that lines 92 and 111 impute.\<close>

definition imputedType :: "ColumnType \<Rightarrow> bool" where
  "imputedType type = (type = NUMERIC \<or> type = CATEGORICAL \<or> type = DATE)"

text \<open>The analyses whose column gets a cleaning action.\<close>

definition needsAction :: "ColumnAnalysis \<Rightarrow> bool" where
  "needsAction a = (0 < missingCount a \<and> imputedType (ctype a))"

text \<open>Every name a loop iteration for \<open>header\<close> can write to.\<close>

definition writtenKeys :: "string \<Rightarrow> string list" where
  "writtenKeys header =
     [header, header @ ''_year'', header @ ''_month'', header @ ''_day'',
      header @ ''_length'', header @ ''_word_count'']"

section \<open>A host for the examples\<close>

text \<open>
  The examples below run on one concrete host: Coordinated Universal Time, strings of
  decimal digits as the only numeric literals, and the forms \<^verbatim>\<open>YYYY\<close> and
  \<^verbatim>\<open>YYYY-MM-DD\<close> of the ECMAScript date-time string format as the only dates. A real
  host accepts more; on the strings the examples use it agrees with this one. The
  general theorems hold for every host.
\<close>

function intDigits :: "int \<Rightarrow> string" where
  "intDigits n =
     (if n < 10 then [char_of (48 + n)] else intDigits (n div 10) @ [char_of (48 + n mod 10)])"
  by pat_completeness auto
termination
  by (relation "measure nat") auto

definition digitsLiteral :: "string \<Rightarrow> rat option" where
  "digitsLiteral s = (if s \<noteq> [] \<and> list_all isDigit s then Some (of_int (digitsValue s)) else None)"

definition daysFromCivil :: "int \<Rightarrow> int \<Rightarrow> int \<Rightarrow> int" where
  "daysFromCivil y m d =
     (let y' = (if m \<le> 2 then y - 1 else y);
          era = y' div 400;
          yoe = y' - era * 400;
          doy = (153 * (if m > 2 then m - 3 else m + 9) + 2) div 5 + d - 1;
          doe = yoe * 365 + yoe div 4 - yoe div 100 + doy
      in era * 146097 + doe - 719468)"

text \<open>Year, month (from 1) and day of a day number.\<close>

definition civilFromDays :: "int \<Rightarrow> int \<times> int \<times> int" where
  "civilFromDays z0 =
     (let z = z0 + 719468;
          era = z div 146097;
          doe = z - era * 146097;
          yoe = (doe - doe div 1460 + doe div 36524 - doe div 146096) div 365;
          doy = doe - (365 * yoe + yoe div 4 - yoe div 100);
          mp = (5 * doy + 2) div 153;
          d = doy - (153 * mp + 2) div 5 + 1;
          m = (if mp < 10 then mp + 3 else mp - 9)
      in (if m \<le> 2 then yoe + era * 400 + 1 else yoe + era * 400, m, d))"

definition daysInMonth :: "int \<Rightarrow> int \<Rightarrow> int" where
  "daysInMonth y m =
     (if m = 2 then (if y mod 4 = 0 \<and> (y mod 100 \<noteq> 0 \<or> y mod 400 = 0) then 29 else 28)
      else if m \<in> set [4, 6, 9, 11] then 30 else 31)"

definition isoDateParse :: "string \<Rightarrow> int option" where
  "isoDateParse s =
     (if length s = 4 \<and> list_all isDigit s
      then Some (daysFromCivil (digitsValue s) 1 1 * 86400000)
      else if length s = 10 \<and> list_all isDigit (take 4 s) \<and> s ! 4 = CHR ''-''
         \<and> list_all isDigit (take 2 (drop 5 s)) \<and> s ! 7 = CHR ''-''
         \<and> list_all isDigit (drop 8 s)
      then (let y = digitsValue (take 4 s);
                m = digitsValue (take 2 (drop 5 s));
                d = digitsValue (drop 8 s)
            in if 1 \<le> m \<and> m \<le> 12 \<and> 1 \<le> d \<and> d \<le> daysInMonth y m
               then Some (daysFromCivil y m d * 86400000) else None)
      else None)"

definition utcFullYear :: "int \<Rightarrow> int" where
  "utcFullYear t = fst (civilFromDays (t div 86400000))"

definition utcMonth :: "int \<Rightarrow> int" where
  "utcMonth t = fst (snd (civilFromDays (t div 86400000))) - 1"

definition utcDate :: "int \<Rightarrow> int" where
  "utcDate t = snd (snd (civilFromDays (t div 86400000)))"

text \<open>At most \<open>k\<close> decimal places of a fraction \<open>r < 1\<close>, stopping when it is exhausted.\<close>

fun fractionDigits :: "nat \<Rightarrow> rat \<Rightarrow> string" where
  "fractionDigits 0 r = []"
| "fractionDigits (Suc k) r =
     (if r = 0 then []
      else char_of (48 + \<lfloor>10 * r\<rfloor>) # fractionDigits k (10 * r - of_int \<lfloor>10 * r\<rfloor>))"

definition decimalString :: "rat \<Rightarrow> string" where
  "decimalString x =
     (let a = \<bar>x\<bar>; whole = \<lfloor>a\<rfloor>; frac = a - of_int \<lfloor>a\<rfloor>
      in (if x < 0 then ''-'' else []) @ intDigits whole
         @ (if frac = 0 then [] else ''.'' @ fractionDigits 17 frac))"

definition fixed2String :: "rat \<Rightarrow> string" where
  "fixed2String x =
     (let n = \<lfloor>\<bar>x\<bar> * 100 + 1 / 2\<rfloor>
      in (if x < 0 then ''-'' else []) @ intDigits (n div 100) @ ''.''
         @ intDigits (n mod 100 div 10) @ intDigits (n mod 10))"

text \<open>The properties of \<^verbatim>\<open>Object.prototype\<close> of ECMAScript with its legacy accessors, the
  functions printed the way V8 prints them.\<close>

definition nativeFunctionText :: "string \<Rightarrow> string" where
  "nativeFunctionText f = ''function '' @ f @ ''() { [native code] }''"

definition standardPrototype :: "string \<Rightarrow> inherited option" where
  "standardPrototype k =
     (if k = ''__proto__'' then Some ProtoAccessor
      else if k = ''constructor'' then Some (FunctionProp (nativeFunctionText ''Object''))
      else if k \<in> set [''hasOwnProperty'', ''isPrototypeOf'', ''propertyIsEnumerable'',
                ''toLocaleString'', ''toString'', ''valueOf'', ''__defineGetter__'',
                ''__defineSetter__'', ''__lookupGetter__'', ''__lookupSetter__'']
      then Some (FunctionProp (nativeFunctionText k))
      else None)"

definition utcHost :: runtime where
  "utcHost = \<lparr>strNumericLiteral = digitsLiteral, dateParse = isoDateParse,
     getFullYear = utcFullYear, getMonth = utcMonth, getDate = utcDate,
     numberToString = decimalString, toFixed2 = fixed2String,
     objectPrototype = standardPrototype\<rparr>"

text \<open>A host that also takes a blank, non-empty string for a date (the epoch). It serves
  to reach the branch of line 139 that skips a row, which a \<open>DATE\<close> column reaches on no
  host that rejects blank strings.\<close>

definition blankDateHost :: runtime where
  "blankDateHost = utcHost\<lparr>dateParse :=
     (\<lambda>s. if s \<noteq> [] \<and> trim s = [] then Some 0 else isoDateParse s)\<rparr>"

section \<open>Example data\<close>

text \<open>Scenario A of the specification: the column \<^verbatim>\<open>[1, 2, "", 4]\<close>.\<close>

definition scenarioA :: "TableRow list" where
  "scenarioA = [[(''x'', NumV 1)], [(''x'', NumV 2)], [(''x'', StrV [])], [(''x'', NumV 4)]]"

text \<open>Two dates that occur once each, and a missing cell.\<close>

definition tiedDates :: "TableRow list" where
  "tiedDates = [[(''d'', StrV ''2021-05-01'')], [(''d'', StrV ''2021-05-02'')], [(''d'', Null)]]"

text \<open>A text column holding the number 0 and a missing cell, and a column that is missing
  throughout.\<close>

definition mixedText :: "TableRow list" where
  "mixedText = [[(''t'', NumV 0), (''u'', Null)], [(''t'', StrV ''hello  world''), (''u'', Null)],
     [(''t'', Null), (''u'', Null)]]"

text \<open>Scenario B of the specification: twelve colours and two missing cells.\<close>

definition redBlue :: "cell list" where
  "redBlue = map StrV [''red'', ''blue'', ''red'', ''red'', ''blue'', ''red'', ''blue'',
     ''red'', ''blue'', ''red'', ''blue'', ''red''] @ [StrV [], StrV []]"

definition scenarioB :: "TableRow list" where
  "scenarioB = map (\<lambda>v. [(''c'', v)]) redBlue"

text \<open>A second row with a key the first row lacks.\<close>

definition raggedRows :: "TableRow list" where
  "raggedRows = [[(''x'', NumV 1)], [(''x'', Null), (''y'', Null)]]"

text \<open>A blank date and a missing cell.\<close>

definition blankDates :: "TableRow list" where
  "blankDates = [[(''d'', StrV ''  ''), (''n'', NumV 1)], [(''d'', Null), (''n'', NumV 2)]]"

text \<open>Six cells holding one space and five holding \<^verbatim>\<open>a\<close>; eleven cells holding one space;
  seven cells holding \<^verbatim>\<open>constructor\<close> and five holding \<^verbatim>\<open>blue\<close>.\<close>

definition spacesAndA :: "TableRow list" where
  "spacesAndA = map (\<lambda>s. [(''c'', StrV s)])
     ['' '', '' '', '' '', '' '', '' '', '' '', ''a'', ''a'', ''a'', ''a'', ''a'']"

definition onlySpaces :: "TableRow list" where
  "onlySpaces = map (\<lambda>s. [(''c'', StrV s)])
     ['' '', '' '', '' '', '' '', '' '', '' '', '' '', '' '', '' '', '' '', '' '']"

definition constructorBlue :: "TableRow list" where
  "constructorBlue = map (\<lambda>s. [(''c'', StrV s)])
     [''constructor'', ''constructor'', ''constructor'', ''constructor'', ''constructor'',
      ''constructor'', ''constructor'', ''blue'', ''blue'', ''blue'', ''blue'', ''blue'']"

section \<open>Properties of the building blocks\<close>

subsection \<open>Reading and writing properties\<close>

lemma map_of_replaceProp:
  "map_of (replaceProp k v obj) k' =
     (if k' = k \<and> k \<in> fst ` set obj then Some v else map_of obj k')"
  by (induction obj) force+

lemma map_of_insertIndexKey:
  "k \<notin> fst ` set obj \<Longrightarrow>
     map_of (insertIndexKey n k v obj) k' = (if k' = k then Some v else map_of obj k')"
  by (induction obj) (auto split: option.splits)

lemma map_of_setProp:
  "map_of (setProp k v obj) k' = (if k' = k then Some v else map_of obj k')"
proof (cases "k \<in> fst ` set obj")
  case True
  then show ?thesis by (simp add: setProp_def map_of_replaceProp)
next
  case False
  then have "map_of obj k = None" by (simp add: map_of_eq_None_iff)
  with False show ?thesis
    by (cases "arrayIndex k")
       (auto simp: setProp_def map_of_insertIndexKey map_add_def split: option.splits)
qed

lemma getProp_setProp:
  "getProp k' (setProp k v row) = (if k' = k then v else getProp k' row)"
  by (simp add: getProp_def map_of_setProp)

subsection \<open>The stages of one iteration\<close>

lemma length_fillMissing [simp]: "length (fillMissing header fill rows) = length rows"
  by (simp add: fillMissing_def)

lemma cleanStage_rows:
  "fst (snd (cleanStage rt header type values missing rows)) =
     (if 0 < missing \<and> imputedType type then fillMissing header (fillValue rt type values) rows
      else rows)"
  by (cases type) (simp_all add: cleanStage_def Let_def fillValue_def imputedType_def)

lemma cleanStage_actions:
  "\<exists>d. snd (snd (cleanStage rt header type values missing rows)) =
     (if 0 < missing \<and> imputedType type
      then [\<lparr>column = header, action = ''Filled missing values'', details = d\<rparr>] else [])"
  by (cases type) (simp_all add: cleanStage_def Let_def imputedType_def)

lemma cleanStage_mean:
  "mean (fst (cleanStage rt header type values missing rows)) =
     (if type = NUMERIC then Some (meanOf (numericValuesOf rt values)) else None)"
  by (cases type) (simp_all add: cleanStage_def Let_def emptyStats_def)

lemma cleanStage_mode:
  "mode (fst (cleanStage rt header type values missing rows)) =
     (if type = CATEGORICAL \<or> type = DATE
      then Some (modeOf rt (countsOf rt (stringValuesOf values))) else None)"
  by (cases type) (simp_all add: cleanStage_def Let_def emptyStats_def)

lemma featureStage_rows:
  "fst (featureStage rt header type rows) =
     (if type = DATE then map (dateFeatures rt header) rows
      else if type = TEXT then map (textFeatures rt header) rows else rows)"
  by (simp add: featureStage_def)

lemma featureStage_infos:
  "snd (featureStage rt header type rows) =
     (if type = DATE then
        [\<lparr>sourceColumn = header,
          newColumns = [header @ ''_year'', header @ ''_month'', header @ ''_day''],
          description = ''Extracted date parts''\<rparr>]
      else if type = TEXT then
        [\<lparr>sourceColumn = header,
          newColumns = [header @ ''_length'', header @ ''_word_count''],
          description = ''Calculated text metrics''\<rparr>]
      else [])"
  by (simp add: featureStage_def)

lemma processColumn_rows:
  "cleanedData (processColumn rt header st) =
     fst (featureStage rt header (inferColumnType rt (columnValues header (cleanedData st)))
       (fst (snd (cleanStage rt header (inferColumnType rt (columnValues header (cleanedData st)))
         (columnValues header (cleanedData st))
         (missingCountOf (columnValues header (cleanedData st))) (cleanedData st)))))"
  by (simp add: processColumn_def Let_def split: prod.splits)

lemma processColumn_analyses:
  "analyses (processColumn rt header st) = analyses st @
     [\<lparr>name = header, ctype = inferColumnType rt (columnValues header (cleanedData st)),
       missingCount = missingCountOf (columnValues header (cleanedData st)),
       stats = fst (cleanStage rt header (inferColumnType rt (columnValues header (cleanedData st)))
         (columnValues header (cleanedData st))
         (missingCountOf (columnValues header (cleanedData st))) (cleanedData st))\<rparr>]"
  by (simp add: processColumn_def Let_def split: prod.splits)

lemma processColumn_actions:
  "actions (processColumn rt header st) = actions st @
     snd (snd (cleanStage rt header (inferColumnType rt (columnValues header (cleanedData st)))
         (columnValues header (cleanedData st))
         (missingCountOf (columnValues header (cleanedData st))) (cleanedData st)))"
  by (simp add: processColumn_def Let_def split: prod.splits)

lemma processColumn_features:
  "features (processColumn rt header st) = features st @
     snd (featureStage rt header (inferColumnType rt (columnValues header (cleanedData st)))
       (fst (snd (cleanStage rt header (inferColumnType rt (columnValues header (cleanedData st)))
         (columnValues header (cleanedData st))
         (missingCountOf (columnValues header (cleanedData st))) (cleanedData st)))))"
  by (simp add: processColumn_def Let_def split: prod.splits)

lemma length_processColumn [simp]:
  "length (cleanedData (processColumn rt header st)) = length (cleanedData st)"
  by (simp add: processColumn_rows featureStage_rows cleanStage_rows)

lemma length_foldl_processColumn:
  "length (cleanedData (foldl (\<lambda>st header. processColumn rt header st) st headers)) =
     length (cleanedData st)"
  by (induction headers arbitrary: st) simp_all

subsection \<open>A whole run\<close>

lemma processData_run:
  "processData rt fname (Complete [] (row0 # rest)) startTime endTime =
     (let st = foldl (\<lambda>st header. processColumn rt header st)
                 (initialWork (jsonClone (row0 # rest))) (objectKeys row0)
      in Inr (\<lparr>fileName = fname, initialRows = Suc (length rest),
           cleanedRows = Suc (length rest),
           initialCols = length (objectKeys row0),
           cleanedCols = length (objectKeys (hd (cleanedData st))),
           processingTime = (endTime - startTime) / 1000,
           columnAnalyses = analyses st,
           cleaningActions = actions st,
           featureEngineering = features st\<rparr>,
          cleanedData st))"
proof -
  let ?st = "foldl (\<lambda>st header. processColumn rt header st)
               (initialWork (jsonClone (row0 # rest))) (objectKeys row0)"
  have "length (cleanedData ?st) = Suc (length rest)"
    by (simp add: length_foldl_processColumn initialWork_def jsonClone_def)
  then obtain first others where
    first: "cleanedData ?st = first # others" and "length others = length rest"
    by (cases "cleanedData ?st") auto
  then show ?thesis
    by (simp add: processData_def Let_def first)
qed

lemma processData_succeeds:
  assumes "rows \<noteq> []"
  shows "\<exists>report cleaned.
    processData rt fname (Complete [] rows) startTime endTime = Inr (report, cleaned)"
proof -
  obtain row0 rest where "rows = row0 # rest"
    using assms by (cases rows) auto
  then show ?thesis
    using processData_run [of rt fname row0 rest startTime endTime] by (simp add: Let_def)
qed

subsection \<open>The cells of a row across one iteration\<close>

lemma map_of_fillMissing:
  "i < length rows \<Longrightarrow> map_of (fillMissing header fill rows ! i) k =
     (if k = header \<and> isMissing (getProp header (rows ! i)) then Some fill
      else map_of (rows ! i) k)"
  by (simp add: fillMissing_def map_of_setProp)

lemma getProp_fillMissing:
  "i < length rows \<Longrightarrow> getProp k (fillMissing header fill rows ! i) =
     (if k = header \<and> isMissing (getProp header (rows ! i)) then fill
      else getProp k (rows ! i))"
  by (simp add: getProp_def map_of_fillMissing)

lemma map_of_dateFeatures:
  "k \<notin> {header @ ''_year'', header @ ''_month'', header @ ''_day''} \<Longrightarrow>
     map_of (dateFeatures rt header row) k = map_of row k"
  by (simp add: dateFeatures_def map_of_setProp split: option.splits)

lemma map_of_textFeatures:
  "k \<notin> {header @ ''_length'', header @ ''_word_count''} \<Longrightarrow>
     map_of (textFeatures rt header row) k = map_of row k"
  by (simp add: textFeatures_def Let_def map_of_setProp)

lemma getProp_dateFeatures_header [simp]:
  "getProp header (dateFeatures rt header row) = getProp header row"
  by (simp add: getProp_def map_of_dateFeatures)

lemma getProp_textFeatures_header [simp]:
  "getProp header (textFeatures rt header row) = getProp header row"
  by (simp add: getProp_def map_of_textFeatures)

lemma missing_cell_counts:
  assumes "i < length rows" "isMissing (getProp header (rows ! i))"
  shows "0 < missingCountOf (columnValues header rows)"
proof -
  have "getProp header (rows ! i) \<in> set (filter isMissing (columnValues header rows))"
    using assms by (auto simp: columnValues_def)
  then show ?thesis
    unfolding missingCountOf_def by (metis length_pos_if_in_set)
qed

text \<open>The cell of the processed column after one iteration.\<close>

lemma getProp_processColumn_header:
  assumes "i < length (cleanedData st)"
  shows "getProp header (cleanedData (processColumn rt header st) ! i) =
     (if isMissing (getProp header (cleanedData st ! i))
         \<and> imputedType (inferColumnType rt (columnValues header (cleanedData st)))
      then fillValue rt (inferColumnType rt (columnValues header (cleanedData st)))
             (columnValues header (cleanedData st))
      else getProp header (cleanedData st ! i))"
  using assms missing_cell_counts [OF assms, of header]
  by (auto simp: processColumn_rows featureStage_rows cleanStage_rows getProp_fillMissing)

text \<open>What one iteration leaves alone.\<close>

lemma map_of_processColumn_other:
  assumes "i < length (cleanedData st)" "k \<notin> set (writtenKeys header)"
  shows "map_of (cleanedData (processColumn rt header st) ! i) k = map_of (cleanedData st ! i) k"
  using assms
  by (auto simp: processColumn_rows featureStage_rows cleanStage_rows map_of_fillMissing
      map_of_dateFeatures map_of_textFeatures writtenKeys_def)

lemma processColumn_actions_cases:
  "\<exists>d. actions (processColumn rt header st) = actions st @
     (if 0 < missingCountOf (columnValues header (cleanedData st))
         \<and> imputedType (inferColumnType rt (columnValues header (cleanedData st)))
      then [\<lparr>column = header, action = ''Filled missing values'', details = d\<rparr>] else [])"
  using cleanStage_actions [of rt header "inferColumnType rt (columnValues header (cleanedData st))"
      "columnValues header (cleanedData st)" "missingCountOf (columnValues header (cleanedData st))"
      "cleanedData st"]
  by (simp add: processColumn_actions)

lemma actions_follow_analyses_step:
  assumes "map column (actions st) = map name (filter needsAction (analyses st))"
  shows "map column (actions (processColumn rt header st)) =
           map name (filter needsAction (analyses (processColumn rt header st)))"
  using assms processColumn_actions_cases [of rt header st]
  by (auto simp: processColumn_analyses needsAction_def)

lemma actions_follow_analyses:
  assumes "map column (actions st) = map name (filter needsAction (analyses st))"
  shows "map column (actions (foldl (\<lambda>st header. processColumn rt header st) st headers)) =
     map name (filter needsAction
       (analyses (foldl (\<lambda>st header. processColumn rt header st) st headers)))"
  using assms
  by (induction headers arbitrary: st) (simp_all add: actions_follow_analyses_step)

lemma dateFeatures_cases:
  "case newDate rt (getProp header row) of
     Some t \<Rightarrow>
       getProp (header @ ''_year'') (dateFeatures rt header row) = NumV (of_int (getFullYear rt t))
       \<and> getProp (header @ ''_month'') (dateFeatures rt header row)
           = NumV (of_int (getMonth rt t + 1))
       \<and> getProp (header @ ''_day'') (dateFeatures rt header row) = NumV (of_int (getDate rt t))
   | None \<Rightarrow> dateFeatures rt header row = row"
  by (simp add: dateFeatures_def getProp_setProp split: option.splits)

lemma textFeatures_fields:
  "getProp (header @ ''_length'') (textFeatures rt header row)
      = NumV (of_nat (length (textOf rt (getProp header row))))
   \<and> getProp (header @ ''_word_count'') (textFeatures rt header row)
      = NumV (of_nat (wordCount (textOf rt (getProp header row))))"
  by (simp add: textFeatures_def Let_def getProp_setProp)

lemma processColumn_rows_DATE:
  assumes "inferColumnType rt (columnValues header (cleanedData st)) = DATE"
  shows "cleanedData (processColumn rt header st) =
     map (dateFeatures rt header)
       (if 0 < missingCountOf (columnValues header (cleanedData st))
        then fillMissing header (fillValue rt DATE (columnValues header (cleanedData st)))
               (cleanedData st)
        else cleanedData st)"
  by (simp add: processColumn_rows featureStage_rows cleanStage_rows assms imputedType_def)

lemma processColumn_rows_TEXT:
  assumes "inferColumnType rt (columnValues header (cleanedData st)) = TEXT"
  shows "cleanedData (processColumn rt header st) =
     map (textFeatures rt header) (cleanedData st)"
  by (simp add: processColumn_rows featureStage_rows cleanStage_rows assms imputedType_def)

subsection \<open>The loop over the headers\<close>

lemma names_foldl_processColumn:
  "map name (analyses (foldl (\<lambda>st header. processColumn rt header st) st headers)) =
     map name (analyses st) @ headers"
  by (induction headers arbitrary: st) (simp_all add: processColumn_analyses)

lemma action_columns_foldl_processColumn:
  "set (map column (actions (foldl (\<lambda>st header. processColumn rt header st) st headers)))
     \<subseteq> set (map column (actions st)) \<union> set headers"
proof (induction headers arbitrary: st)
  case Nil
  show ?case by simp
next
  case (Cons h hs)
  obtain d where "actions (processColumn rt h st) = actions st @
     (if 0 < missingCountOf (columnValues h (cleanedData st))
         \<and> imputedType (inferColumnType rt (columnValues h (cleanedData st)))
      then [\<lparr>column = h, action = ''Filled missing values'', details = d\<rparr>] else [])"
    using processColumn_actions_cases [of rt h st] by blast
  then have "set (map column (actions (processColumn rt h st)))
      \<subseteq> set (map column (actions st)) \<union> {h}"
    by auto
  with Cons.IH [of "processColumn rt h st"] show ?case by auto
qed

lemma feature_sources_foldl_processColumn:
  "set (map sourceColumn (features (foldl (\<lambda>st header. processColumn rt header st) st headers)))
     \<subseteq> set (map sourceColumn (features st)) \<union> set headers"
proof (induction headers arbitrary: st)
  case Nil
  show ?case by simp
next
  case (Cons h hs)
  have "set (map sourceColumn (features (processColumn rt h st)))
      \<subseteq> set (map sourceColumn (features st)) \<union> {h}"
    by (auto simp: processColumn_features featureStage_infos)
  with Cons.IH [of "processColumn rt h st"] show ?case by auto
qed

lemma map_of_foldl_processColumn_other:
  assumes "i < length (cleanedData st)" "\<forall>h \<in> set headers. k \<notin> set (writtenKeys h)"
  shows "map_of (cleanedData (foldl (\<lambda>st header. processColumn rt header st) st headers) ! i) k
           = map_of (cleanedData st ! i) k"
  using assms
  by (induction headers arbitrary: st) (simp_all add: map_of_processColumn_other)

subsection \<open>Counting and the mode\<close>

lemma keys_replaceProp [simp]: "map fst (replaceProp k v obj) = map fst obj"
  by (induction obj) auto

lemma objectKeys_setProp_plain:
  assumes "arrayIndex k = None"
  shows "objectKeys (setProp k v obj) =
     (if k \<in> set (objectKeys obj) then objectKeys obj else objectKeys obj @ [k])"
  using assms by (simp add: objectKeys_def setProp_def)

text \<open>Keys that meet no inherited property are counted with numbers.\<close>

lemma map_of_countStep:
  assumes "objectPrototype rt x = None"
  shows "map_of (countStep rt counts x) v =
     (if v = x then Some (bumped (case map_of counts x of Some c \<Rightarrow> Own c | None \<Rightarrow> Absent))
      else map_of counts v)"
  using assms by (simp add: countStep_def readCount_def map_of_setProp split: option.splits)

lemma countsOf_snoc: "countsOf rt (xs @ [x]) = countStep rt (countsOf rt xs) x"
  by (simp add: countsOf_def)

lemma map_of_countsOf:
  assumes "\<forall>x \<in> set xs. objectPrototype rt x = None"
  shows "map_of (countsOf rt xs) v =
     (if v \<in> set xs then Some (Count (count_list xs v)) else None)"
  using assms
proof (induction xs arbitrary: v rule: rev_induct)
  case Nil
  show ?case by (simp add: countsOf_def)
next
  case (snoc x xs)
  have plain: "objectPrototype rt x = None" and others: "\<forall>x \<in> set xs. objectPrototype rt x = None"
    using snoc.prems by simp_all
  note IH = snoc.IH [OF others]
  show ?case
    by (auto simp: countsOf_snoc map_of_countStep [OF plain] IH)
qed

lemma set_keys_countsOf:
  assumes "\<forall>x \<in> set xs. objectPrototype rt x = None"
  shows "set (objectKeys (countsOf rt xs)) = set xs"
proof -
  have "fst ` set (countsOf rt xs) = dom (map_of (countsOf rt xs))"
    by (simp add: dom_map_of_conv_image_fst)
  also have "\<dots> = set xs"
    by (auto simp: map_of_countsOf [OF assms] dom_def)
  finally show ?thesis by (simp add: objectKeys_def)
qed

lemma keys_countsOf_insertion_order:
  assumes "\<forall>x \<in> set xs. objectPrototype rt x = None" "\<forall>x \<in> set xs. arrayIndex x = None"
  shows "objectKeys (countsOf rt xs) = rev (remdups (rev xs))"
  using assms
proof (induction xs rule: rev_induct)
  case Nil
  show ?case by (simp add: countsOf_def objectKeys_def)
next
  case (snoc x xs)
  then have "objectKeys (countsOf rt xs) = rev (remdups (rev xs))" and "arrayIndex x = None"
    and "objectPrototype rt x = None" and "\<forall>x \<in> set xs. objectPrototype rt x = None"
    by simp_all
  then show ?case
    using set_keys_countsOf [of xs rt]
    by (simp add: countsOf_snoc countStep_def objectKeys_setProp_plain)
qed

text \<open>The \<^verbatim>\<open>reduce\<close> of line 115 over keys that the comparison orders by a count: it ends
  on the last key among those of greatest count, unless the start value beats every key.\<close>

lemma running_maximum:
  fixes cnt :: "'a \<Rightarrow> nat"
  assumes "set ks \<subseteq> K" and "\<forall>x \<in> K. \<forall>y \<in> K. gt x y = (cnt y < cnt x)"
    and "a \<in> K \<or> (\<forall>y \<in> K. \<not> gt a y)"
  shows "(foldl (\<lambda>a b. if gt a b then a else b) a ks = a \<and> (\<forall>k \<in> set ks. gt a k))
     \<or> (\<exists>before after.
          ks = before @ foldl (\<lambda>a b. if gt a b then a else b) a ks # after
          \<and> (\<forall>k \<in> set before. cnt k \<le> cnt (foldl (\<lambda>a b. if gt a b then a else b) a ks))
          \<and> (\<forall>k \<in> set after. cnt k < cnt (foldl (\<lambda>a b. if gt a b then a else b) a ks))
          \<and> (a \<in> K \<longrightarrow> cnt a \<le> cnt (foldl (\<lambda>a b. if gt a b then a else b) a ks)))"
  using assms
proof (induction ks arbitrary: a)
  case Nil
  show ?case by simp
next
  case (Cons k ks)
  let ?f = "\<lambda>a b. if gt a b then a else b"
  have k: "k \<in> K" and rest: "set ks \<subseteq> K"
    using Cons.prems(1) by simp_all
  note order = Cons.prems(2)
  show ?case
  proof (cases "gt a k")
    case True
    then have a: "a \<in> K"
      using Cons.prems(3) k by blast
    then have less: "cnt k < cnt a"
      using True order k by simp
    let ?r = "foldl ?f a ks"
    have step: "foldl ?f a (k # ks) = ?r"
      using True by simp
    from Cons.IH [OF rest order Cons.prems(3)] show ?thesis
    proof (elim disjE conjE exE)
      assume "?r = a" "\<forall>k \<in> set ks. gt a k"
      with True show ?thesis unfolding step by simp
    next
      fix before after
      assume move: "ks = before @ ?r # after"
          "\<forall>k \<in> set before. cnt k \<le> cnt ?r" "\<forall>k \<in> set after. cnt k < cnt ?r"
          "a \<in> K \<longrightarrow> cnt a \<le> cnt ?r"
      have "k # ks = (k # before) @ ?r # after"
        using move(1) by simp
      moreover have "\<forall>x \<in> set (k # before). cnt x \<le> cnt ?r"
        using move(2,4) a less by auto
      ultimately show ?thesis
        unfolding step using move(3,4) by blast
    qed
  next
    case False
    then have le: "a \<in> K \<longrightarrow> cnt a \<le> cnt k"
      using order k by auto
    let ?r = "foldl ?f k ks"
    have step: "foldl ?f a (k # ks) = ?r"
      using False by simp
    have start: "k \<in> K \<or> (\<forall>y \<in> K. \<not> gt k y)"
      using k by simp
    from Cons.IH [OF rest order start] show ?thesis
    proof (elim disjE conjE exE)
      assume stay: "?r = k" "\<forall>x \<in> set ks. gt k x"
      have "k # ks = [] @ ?r # ks"
        using stay(1) by simp
      moreover have "\<forall>x \<in> set ks. cnt x < cnt ?r"
        using stay rest k order by auto
      moreover have "a \<in> K \<longrightarrow> cnt a \<le> cnt ?r"
        using le stay(1) by simp
      ultimately show ?thesis
        unfolding step by (intro disjI2 exI [of _ "[]"] exI [of _ ks]) simp
    next
      fix before after
      assume move: "ks = before @ ?r # after"
          "\<forall>x \<in> set before. cnt x \<le> cnt ?r" "\<forall>x \<in> set after. cnt x < cnt ?r"
          "k \<in> K \<longrightarrow> cnt k \<le> cnt ?r"
      have "k # ks = (k # before) @ ?r # after"
        using move(1) by simp
      moreover have "\<forall>x \<in> set (k # before). cnt x \<le> cnt ?r"
        using move(2,4) k by auto
      moreover have "a \<in> K \<longrightarrow> cnt a \<le> cnt ?r"
        using le move(4) k by auto
      ultimately show ?thesis
        unfolding step using move(3) by blast
    qed
  qed
qed

lemma modeOf_empty: "modeOf rt (countsOf rt []) = []"
  by (simp add: modeOf_def countsOf_def objectKeys_def)

lemma jsGreater_counts [simp]:
  "jsGreater rt (Own (Count m)) (Own (Count n)) = (n < m)"
  by (simp add: jsGreater_def)

lemma jsGreater_Absent [simp]: "jsGreater rt Absent y = False"
  by (simp add: jsGreater_def)

lemma modeOf_countsOf:
  assumes "[] \<notin> set xs" "xs \<noteq> []"
    and "\<forall>x \<in> set xs. objectPrototype rt x = None" "objectPrototype rt [] = None"
  shows "\<exists>before after. objectKeys (countsOf rt xs) = before @ modeOf rt (countsOf rt xs) # after
     \<and> (\<forall>k \<in> set before. count_list xs k \<le> count_list xs (modeOf rt (countsOf rt xs)))
     \<and> (\<forall>k \<in> set after. count_list xs k < count_list xs (modeOf rt (countsOf rt xs)))"
proof -
  let ?counts = "countsOf rt xs"
  let ?ks = "objectKeys ?counts"
  let ?gt = "\<lambda>a b. jsGreater rt (readCount rt ?counts a) (readCount rt ?counts b)"
  have read: "\<forall>x \<in> set xs. readCount rt ?counts x = Own (Count (count_list xs x))"
    by (simp add: readCount_def map_of_countsOf [OF assms(3)])
  have keys: "set ?ks \<subseteq> set xs"
    by (simp add: set_keys_countsOf [OF assms(3)])
  have order: "\<forall>x \<in> set xs. \<forall>y \<in> set xs. ?gt x y = (count_list xs y < count_list xs x)"
    using read by simp
  have "readCount rt ?counts [] = Absent"
    using assms(1,4) by (simp add: readCount_def map_of_countsOf [OF assms(3)])
  then have start: "[] \<in> set xs \<or> (\<forall>y \<in> set xs. \<not> ?gt [] y)"
    by simp
  have nonempty: "?ks \<noteq> []"
    using set_keys_countsOf [OF assms(3)] assms(2) by auto
  have mode: "modeOf rt ?counts = foldl (\<lambda>a b. if ?gt a b then a else b) [] ?ks"
    by (simp add: modeOf_def)
  obtain k where "k \<in> set ?ks"
    using nonempty by (cases ?ks) auto
  then have "k \<in> set ?ks \<and> \<not> ?gt [] k"
    using start keys assms(1) by auto
  then have "\<not> (\<forall>k \<in> set ?ks. ?gt [] k)"
    by blast
  with running_maximum [of ?ks "set xs" ?gt "count_list xs" "[]", OF keys order start]
  show ?thesis
    unfolding mode by blast
qed

lemma stringOf_Some: "stringOf v = Some s \<longleftrightarrow> v = StrV s \<and> trim s \<noteq> []"
  by (cases v) auto

lemma set_stringValuesOf:
  "set (stringValuesOf vs) = {s. StrV s \<in> set vs \<and> trim s \<noteq> []}"
proof (induction vs)
  case Nil
  show ?case by (simp add: stringValuesOf_def List.map_filter_simps)
next
  case (Cons v vs)
  then show ?case
    by (cases v) (auto simp: stringValuesOf_def List.map_filter_simps)
qed

lemma trim_Nil [simp]: "trim [] = []"
  by (simp add: trim_def)

lemma stringValuesOf_filter:
  "map StrV (stringValuesOf vs) =
     filter (\<lambda>v. case v of StrV s \<Rightarrow> trim s \<noteq> [] | _ \<Rightarrow> False) vs"
proof (induction vs)
  case Nil
  show ?case by (simp add: stringValuesOf_def List.map_filter_simps)
next
  case (Cons v vs)
  then show ?case
    by (cases v) (simp_all add: stringValuesOf_def List.map_filter_simps)
qed

section \<open>The claims\<close>

text \<open>
  \<^bold>\<open>C1.\<close> The claim asks for the mean of the cells that are not missing. Line 81 drops the
  values that \<^verbatim>\<open>Number\<close> turns into \<^verbatim>\<open>NaN\<close>, and \<^verbatim>\<open>Number\<close> turns the empty string and
  \<^verbatim>\<open>null\<close> into 0: such cells stay in the sum as 0 and in the count. On Scenario A, on
  every host, the numeric values are \<open>[1, 2, 0, 4]\<close>, the mean recorded and written into
  the third cell is \<open>7 / 4\<close>, and the claim's \<open>(1 + 2 + 4) / 3\<close> is another number.
\<close>

theorem C1_mean_counts_blank_cells:
  "columnValues ''x'' scenarioA = [NumV 1, NumV 2, StrV [], NumV 4]
   \<and> numericValuesOf rt (columnValues ''x'' scenarioA) = [1, 2, 0, 4]
   \<and> processColumn rt ''x'' (initialWork scenarioA) =
      \<lparr>cleanedData = [[(''x'', NumV 1)], [(''x'', NumV 2)], [(''x'', NumV (7 / 4))],
                      [(''x'', NumV 4)]],
       analyses = [\<lparr>name = ''x'', ctype = NUMERIC, missingCount = 1,
                    stats = \<lparr>mean = Some (7 / 4), median = Some (3 / 2), stdDev = None,
                             min_stat = Some 0, max_stat = Some 4, mode = None,
                             uniqueValues = None\<rparr>\<rparr>],
       actions = [\<lparr>column = ''x'', action = ''Filled missing values'',
                   details = ''Used mean ('' @ toFixed2 rt (7 / 4) @ '')''\<rparr>],
       features = []\<rparr>
   \<and> (7 / 4 :: rat) \<noteq> (1 + 2 + 4) / 3"
proof -
  have vals: "columnValues ''x'' scenarioA = [NumV 1, NumV 2, StrV [], NumV 4]"
    by (simp add: columnValues_def scenarioA_def getProp_def)
  have nums: "numericValuesOf rt [NumV 1, NumV 2, StrV [], NumV 4] = [1, 2, 0, 4]"
    by (simp add: numericValuesOf_def List.map_filter_simps)
  have type: "inferColumnType rt [NumV 1, NumV 2, StrV [], NumV 4] = NUMERIC"
    by (simp add: inferColumnType_def nonNullValuesOf_def)
  have missing: "missingCountOf [NumV 1, NumV 2, StrV [], NumV 4] = 1"
    by (simp add: missingCountOf_def)
  have m: "meanOf [1, 2, 0, 4] = 7 / 4"
    by (simp add: meanOf_def)
  have sorted: "sort [1, 2, 0, 4 :: rat] = [0, 1, 2, 4]"
    by simp
  have med: "medianOf [0, 1, 2, 4] = Some (3 / 2)"
    by (simp add: medianOf_def)
  have filled: "fillMissing ''x'' (NumV (7 / 4)) scenarioA =
      [[(''x'', NumV 1)], [(''x'', NumV 2)], [(''x'', NumV (7 / 4))], [(''x'', NumV 4)]]"
    by (simp add: fillMissing_def scenarioA_def getProp_def setProp_def)
  have "processColumn rt ''x'' (initialWork scenarioA) =
      \<lparr>cleanedData = [[(''x'', NumV 1)], [(''x'', NumV 2)], [(''x'', NumV (7 / 4))],
                      [(''x'', NumV 4)]],
       analyses = [\<lparr>name = ''x'', ctype = NUMERIC, missingCount = 1,
                    stats = \<lparr>mean = Some (7 / 4), median = Some (3 / 2), stdDev = None,
                             min_stat = Some 0, max_stat = Some 4, mode = None,
                             uniqueValues = None\<rparr>\<rparr>],
       actions = [\<lparr>column = ''x'', action = ''Filled missing values'',
                   details = ''Used mean ('' @ toFixed2 rt (7 / 4) @ '')''\<rparr>],
       features = []\<rparr>"
    by (simp add: processColumn_def initialWork_def vals type missing cleanStage_def nums m
        sorted med filled featureStage_def emptyStats_def firstOf_def lastOf_def Let_def)
  with vals nums show ?thesis by simp
qed

text \<open>
  \<^bold>\<open>C2.\<close> With the missing values (\<^verbatim>\<open>null\<close>, \<^verbatim>\<open>undefined\<close>, the empty string) removed,
  \<^verbatim>\<open>inferColumnType\<close> answers in this order: \<open>UNKNOWN\<close> when nothing is left; else
  \<open>NUMERIC\<close> when every value is a number or a string that is not blank and whose
  conversion by \<^verbatim>\<open>Number\<close> is not \<^verbatim>\<open>NaN\<close>; else \<open>DATE\<close> when every value is a string that
  \<^verbatim>\<open>Date.parse\<close> accepts; else \<open>CATEGORICAL\<close> when the distinct values are less than half
  of the values and there are more than 10 values; else \<open>TEXT\<close>. So 10 values or fewer
  are never \<open>CATEGORICAL\<close>, and values that all look numeric and date-like are \<open>NUMERIC\<close>.
\<close>

theorem C2_inference_order:
  "(isMissing v \<longleftrightarrow> v = Null \<or> v = Undefined \<or> v = StrV [])
   \<and> (looksNumeric rt v \<longleftrightarrow>
        (\<exists>n. v = NumV n) \<or> (\<exists>s. v = StrV s \<and> trim s \<noteq> [] \<and> Number rt v \<noteq> None))
   \<and> (looksDate rt v \<longleftrightarrow> (\<exists>s. v = StrV s \<and> dateParse rt s \<noteq> None))
   \<and> (nonNullValuesOf values = [] \<longrightarrow> inferColumnType rt values = UNKNOWN)
   \<and> (nonNullValuesOf values \<noteq> []
        \<and> (\<forall>v \<in> set (nonNullValuesOf values). looksNumeric rt v)
        \<longrightarrow> inferColumnType rt values = NUMERIC)
   \<and> (nonNullValuesOf values \<noteq> []
        \<and> \<not> (\<forall>v \<in> set (nonNullValuesOf values). looksNumeric rt v)
        \<and> (\<forall>v \<in> set (nonNullValuesOf values). looksDate rt v)
        \<longrightarrow> inferColumnType rt values = DATE)
   \<and> (nonNullValuesOf values \<noteq> []
        \<and> \<not> (\<forall>v \<in> set (nonNullValuesOf values). looksNumeric rt v)
        \<and> \<not> (\<forall>v \<in> set (nonNullValuesOf values). looksDate rt v)
        \<and> (of_nat (card (set (nonNullValuesOf values))) :: rat)
              / of_nat (length (nonNullValuesOf values)) < 1 / 2
        \<and> 10 < length (nonNullValuesOf values)
        \<longrightarrow> inferColumnType rt values = CATEGORICAL)
   \<and> (nonNullValuesOf values \<noteq> []
        \<and> \<not> (\<forall>v \<in> set (nonNullValuesOf values). looksNumeric rt v)
        \<and> \<not> (\<forall>v \<in> set (nonNullValuesOf values). looksDate rt v)
        \<and> \<not> ((of_nat (card (set (nonNullValuesOf values))) :: rat)
              / of_nat (length (nonNullValuesOf values)) < 1 / 2
             \<and> 10 < length (nonNullValuesOf values))
        \<longrightarrow> inferColumnType rt values = TEXT)
   \<and> (length (nonNullValuesOf values) \<le> 10 \<longrightarrow> inferColumnType rt values \<noteq> CATEGORICAL)
   \<and> (nonNullValuesOf values \<noteq> []
        \<and> (\<forall>v \<in> set (nonNullValuesOf values). looksNumeric rt v \<and> looksDate rt v)
        \<longrightarrow> inferColumnType rt values = NUMERIC)"
proof -
  have missing: "isMissing v \<longleftrightarrow> v = Null \<or> v = Undefined \<or> v = StrV []"
    by (cases v) auto
  have numeric: "looksNumeric rt v \<longleftrightarrow>
      (\<exists>n. v = NumV n) \<or> (\<exists>s. v = StrV s \<and> trim s \<noteq> [] \<and> Number rt v \<noteq> None)"
    by (cases v) auto
  have date: "looksDate rt v \<longleftrightarrow> (\<exists>s. v = StrV s \<and> dateParse rt s \<noteq> None)"
    by (cases v) auto
  have chain: "inferColumnType rt values =
     (if nonNullValuesOf values = [] then UNKNOWN
      else if \<forall>v \<in> set (nonNullValuesOf values). looksNumeric rt v then NUMERIC
      else if \<forall>v \<in> set (nonNullValuesOf values). looksDate rt v then DATE
      else if (of_nat (card (set (nonNullValuesOf values))) :: rat)
                / of_nat (length (nonNullValuesOf values)) < 1 / 2
              \<and> 10 < length (nonNullValuesOf values) then CATEGORICAL
      else TEXT)"
    by (simp add: inferColumnType_def Let_def list_all_iff length_remdups_card_conv)
  have rest: "(nonNullValuesOf values = [] \<longrightarrow> inferColumnType rt values = UNKNOWN)
   \<and> (nonNullValuesOf values \<noteq> []
        \<and> (\<forall>v \<in> set (nonNullValuesOf values). looksNumeric rt v)
        \<longrightarrow> inferColumnType rt values = NUMERIC)
   \<and> (nonNullValuesOf values \<noteq> []
        \<and> \<not> (\<forall>v \<in> set (nonNullValuesOf values). looksNumeric rt v)
        \<and> (\<forall>v \<in> set (nonNullValuesOf values). looksDate rt v)
        \<longrightarrow> inferColumnType rt values = DATE)
   \<and> (nonNullValuesOf values \<noteq> []
        \<and> \<not> (\<forall>v \<in> set (nonNullValuesOf values). looksNumeric rt v)
        \<and> \<not> (\<forall>v \<in> set (nonNullValuesOf values). looksDate rt v)
        \<and> (of_nat (card (set (nonNullValuesOf values))) :: rat)
              / of_nat (length (nonNullValuesOf values)) < 1 / 2
        \<and> 10 < length (nonNullValuesOf values)
        \<longrightarrow> inferColumnType rt values = CATEGORICAL)
   \<and> (nonNullValuesOf values \<noteq> []
        \<and> \<not> (\<forall>v \<in> set (nonNullValuesOf values). looksNumeric rt v)
        \<and> \<not> (\<forall>v \<in> set (nonNullValuesOf values). looksDate rt v)
        \<and> \<not> ((of_nat (card (set (nonNullValuesOf values))) :: rat)
              / of_nat (length (nonNullValuesOf values)) < 1 / 2
             \<and> 10 < length (nonNullValuesOf values))
        \<longrightarrow> inferColumnType rt values = TEXT)
   \<and> (length (nonNullValuesOf values) \<le> 10 \<longrightarrow> inferColumnType rt values \<noteq> CATEGORICAL)
   \<and> (nonNullValuesOf values \<noteq> []
        \<and> (\<forall>v \<in> set (nonNullValuesOf values). looksNumeric rt v \<and> looksDate rt v)
        \<longrightarrow> inferColumnType rt values = NUMERIC)"
    unfolding chain by auto
  from missing numeric date rest show ?thesis by (intro conjI) (rule, blast+)
qed

theorem C2_inference_order_witness:
  "inferColumnType utcHost [Null, Undefined, StrV []] = UNKNOWN
   \<and> inferColumnType utcHost [NumV 1, StrV '' 7 '', Null] = NUMERIC
   \<and> inferColumnType utcHost [StrV ''2021-05-01'', StrV []] = DATE
   \<and> inferColumnType utcHost redBlue = CATEGORICAL
   \<and> inferColumnType utcHost (map StrV [''a'', ''b'', ''c'', ''d'', ''e'']) = TEXT
   \<and> inferColumnType utcHost (map StrV [''a'', ''a'', ''a'', ''a'', ''a'', ''a'']) \<noteq> CATEGORICAL
   \<and> inferColumnType utcHost [StrV ''2021'', StrV ''1999''] = NUMERIC"
proof -
  let ?unknown = "[Null, Undefined, StrV []]"
  let ?numeric = "[NumV 1, StrV '' 7 '', Null]"
  let ?date = "[StrV ''2021-05-01'', StrV []]"
  let ?text = "map StrV [''a'', ''b'', ''c'', ''d'', ''e'']"
  let ?same = "map StrV [''a'', ''a'', ''a'', ''a'', ''a'', ''a'']"
  let ?years = "[StrV ''2021'', StrV ''1999'']"
  have "nonNullValuesOf ?unknown = []"
    by code_simp
  with C2_inference_order [of _ utcHost ?unknown]
  have 1: "inferColumnType utcHost ?unknown = UNKNOWN" by blast
  have "nonNullValuesOf ?numeric \<noteq> []
      \<and> (\<forall>v \<in> set (nonNullValuesOf ?numeric). looksNumeric utcHost v)"
    by code_simp
  with C2_inference_order [of _ utcHost ?numeric]
  have 2: "inferColumnType utcHost ?numeric = NUMERIC" by blast
  have "nonNullValuesOf ?date \<noteq> []
      \<and> \<not> (\<forall>v \<in> set (nonNullValuesOf ?date). looksNumeric utcHost v)
      \<and> (\<forall>v \<in> set (nonNullValuesOf ?date). looksDate utcHost v)"
    by code_simp
  with C2_inference_order [of _ utcHost ?date]
  have 3: "inferColumnType utcHost ?date = DATE" by blast
  have "nonNullValuesOf redBlue \<noteq> []
      \<and> \<not> (\<forall>v \<in> set (nonNullValuesOf redBlue). looksNumeric utcHost v)
      \<and> \<not> (\<forall>v \<in> set (nonNullValuesOf redBlue). looksDate utcHost v)
      \<and> (of_nat (card (set (nonNullValuesOf redBlue))) :: rat)
            / of_nat (length (nonNullValuesOf redBlue)) < 1 / 2
      \<and> 10 < length (nonNullValuesOf redBlue)"
    by code_simp
  with C2_inference_order [of _ utcHost redBlue]
  have 4: "inferColumnType utcHost redBlue = CATEGORICAL" by blast
  have "nonNullValuesOf ?text \<noteq> []
      \<and> \<not> (\<forall>v \<in> set (nonNullValuesOf ?text). looksNumeric utcHost v)
      \<and> \<not> (\<forall>v \<in> set (nonNullValuesOf ?text). looksDate utcHost v)
      \<and> \<not> ((of_nat (card (set (nonNullValuesOf ?text))) :: rat)
            / of_nat (length (nonNullValuesOf ?text)) < 1 / 2
           \<and> 10 < length (nonNullValuesOf ?text))"
    by code_simp
  with C2_inference_order [of _ utcHost ?text]
  have 5: "inferColumnType utcHost ?text = TEXT" by blast
  have "length (nonNullValuesOf ?same) \<le> 10"
    by code_simp
  with C2_inference_order [of _ utcHost ?same]
  have 6: "inferColumnType utcHost ?same \<noteq> CATEGORICAL" by blast
  have "nonNullValuesOf ?years \<noteq> []
      \<and> (\<forall>v \<in> set (nonNullValuesOf ?years). looksNumeric utcHost v \<and> looksDate utcHost v)"
    by code_simp
  with C2_inference_order [of _ utcHost ?years]
  have 7: "inferColumnType utcHost ?years = NUMERIC" by blast
  from 1 2 3 4 5 6 7 show ?thesis by blast
qed

text \<open>
  \<^bold>\<open>C3.\<close> One iteration of the loop, from any working state, records one analysis for
  its column, with the type inferred from the values the column has before the iteration
  and the number of missing ones among them. It pushes exactly one cleaning action, for
  that column, when that number is positive and the type is \<open>NUMERIC\<close>, \<open>CATEGORICAL\<close>
  or \<open>DATE\<close>, and none otherwise; a \<open>TEXT\<close> or \<open>UNKNOWN\<close> column keeps all its cells.
  Over a whole run, the columns of the cleaning actions are, in order, the columns whose
  analysis has a positive missing count and one of the three types.
\<close>

theorem C3_cleaning_action_iff:
  "(\<exists>a. analyses (processColumn rt header st) = analyses st @ [a]
        \<and> name a = header
        \<and> ctype a = inferColumnType rt (columnValues header (cleanedData st))
        \<and> missingCount a = missingCountOf (columnValues header (cleanedData st))
        \<and> (0 < missingCount a
               \<and> (ctype a = NUMERIC \<or> ctype a = CATEGORICAL \<or> ctype a = DATE)
             \<longrightarrow> (\<exists>act. actions (processColumn rt header st) = actions st @ [act]
                   \<and> column act = header))
        \<and> (\<not> (0 < missingCount a
               \<and> (ctype a = NUMERIC \<or> ctype a = CATEGORICAL \<or> ctype a = DATE))
             \<longrightarrow> actions (processColumn rt header st) = actions st)
        \<and> (ctype a = TEXT \<or> ctype a = UNKNOWN \<longrightarrow>
             actions (processColumn rt header st) = actions st
             \<and> columnValues header (cleanedData (processColumn rt header st))
                 = columnValues header (cleanedData st)))
   \<and> (processData rt fname outcome startTime endTime = Inr (report, cleaned) \<longrightarrow>
        map column (cleaningActions report) =
          map name (filter (\<lambda>a. 0 < missingCount a
              \<and> (ctype a = NUMERIC \<or> ctype a = CATEGORICAL \<or> ctype a = DATE))
            (columnAnalyses report)))"
proof (intro conjI impI)
  let ?vals = "columnValues header (cleanedData st)"
  let ?type = "inferColumnType rt ?vals"
  let ?st' = "processColumn rt header st"
  obtain a where a: "analyses ?st' = analyses st @ [a]" "name a = header" "ctype a = ?type"
      "missingCount a = missingCountOf ?vals"
    by (simp add: processColumn_analyses)
  obtain d where d: "actions ?st' = actions st @
     (if 0 < missingCountOf ?vals \<and> imputedType ?type
      then [\<lparr>column = header, action = ''Filled missing values'', details = d\<rparr>] else [])"
    using processColumn_actions_cases [of rt header st] by blast
  have acts: "(0 < missingCount a
               \<and> (ctype a = NUMERIC \<or> ctype a = CATEGORICAL \<or> ctype a = DATE)
             \<longrightarrow> (\<exists>act. actions ?st' = actions st @ [act] \<and> column act = header))
        \<and> (\<not> (0 < missingCount a
               \<and> (ctype a = NUMERIC \<or> ctype a = CATEGORICAL \<or> ctype a = DATE))
             \<longrightarrow> actions ?st' = actions st)"
    using a d by (auto simp: imputedType_def)
  have keep: "ctype a = TEXT \<or> ctype a = UNKNOWN \<longrightarrow>
      actions ?st' = actions st \<and> columnValues header (cleanedData ?st') = ?vals"
  proof
    assume t: "ctype a = TEXT \<or> ctype a = UNKNOWN"
    then have no: "\<not> imputedType ?type"
      using a by (auto simp: imputedType_def)
    have "\<forall>i < length (cleanedData st).
        getProp header (cleanedData ?st' ! i) = getProp header (cleanedData st ! i)"
      using no by (simp add: getProp_processColumn_header)
    then have "columnValues header (cleanedData ?st') = ?vals"
      unfolding columnValues_def by (intro nth_equalityI) simp_all
    with no d show "actions ?st' = actions st \<and> columnValues header (cleanedData ?st') = ?vals"
      by simp
  qed
  from a acts keep
  show "\<exists>a. analyses ?st' = analyses st @ [a] \<and> name a = header \<and> ctype a = ?type
        \<and> missingCount a = missingCountOf ?vals
        \<and> (0 < missingCount a
               \<and> (ctype a = NUMERIC \<or> ctype a = CATEGORICAL \<or> ctype a = DATE)
             \<longrightarrow> (\<exists>act. actions ?st' = actions st @ [act] \<and> column act = header))
        \<and> (\<not> (0 < missingCount a
               \<and> (ctype a = NUMERIC \<or> ctype a = CATEGORICAL \<or> ctype a = DATE))
             \<longrightarrow> actions ?st' = actions st)
        \<and> (ctype a = TEXT \<or> ctype a = UNKNOWN \<longrightarrow>
             actions ?st' = actions st \<and> columnValues header (cleanedData ?st') = ?vals)"
    by blast
next
  assume run: "processData rt fname outcome startTime endTime = Inr (report, cleaned)"
  have same: "(\<lambda>a. 0 < missingCount a
      \<and> (ctype a = NUMERIC \<or> ctype a = CATEGORICAL \<or> ctype a = DATE)) = needsAction"
    by (simp add: fun_eq_iff needsAction_def imputedType_def)
  show "map column (cleaningActions report) =
          map name (filter (\<lambda>a. 0 < missingCount a
              \<and> (ctype a = NUMERIC \<or> ctype a = CATEGORICAL \<or> ctype a = DATE))
            (columnAnalyses report))"
    unfolding same
  proof (cases outcome)
    case (Failed e)
    with run show "map column (cleaningActions report) =
        map name (filter needsAction (columnAnalyses report))"
      by (simp add: processData_def)
  next
    case (Complete errors rows)
    show "map column (cleaningActions report) =
        map name (filter needsAction (columnAnalyses report))"
    proof (cases errors)
      case (Cons m ms)
      with run Complete show ?thesis by (simp add: processData_def)
    next
      case Nil
      show ?thesis
      proof (cases rows)
        case Nil
        with run Complete \<open>errors = []\<close> show ?thesis by (simp add: processData_def)
      next
        case (Cons row0 rest)
        let ?st = "foldl (\<lambda>st header. processColumn rt header st)
                     (initialWork (jsonClone (row0 # rest))) (objectKeys row0)"
        have "map column (actions ?st) = map name (filter needsAction (analyses ?st))"
          by (rule actions_follow_analyses) (simp add: initialWork_def)
        moreover have "cleaningActions report = actions ?st \<and> columnAnalyses report = analyses ?st"
          using run Complete \<open>errors = []\<close> Cons
            processData_run [of rt fname row0 rest startTime endTime]
          by (auto simp: Let_def)
        ultimately show ?thesis by simp
      qed
    qed
  qed
qed

theorem C3_cleaning_action_iff_witness:
  "(\<exists>act. actions (processColumn utcHost ''x'' (initialWork scenarioA)) = [act]
       \<and> column act = ''x'')
   \<and> actions (processColumn utcHost ''t'' (initialWork mixedText)) = []
   \<and> columnValues ''t'' (cleanedData (processColumn utcHost ''t'' (initialWork mixedText)))
       = [NumV 0, StrV ''hello  world'', Null]
   \<and> (\<exists>report cleaned.
        processData utcHost ''a.csv'' (Complete [] scenarioA) 0 1 = Inr (report, cleaned)
        \<and> map column (cleaningActions report) = [''x''])"
proof -
  let ?A = "initialWork scenarioA"
  let ?T = "initialWork mixedText"
  obtain a :: ColumnAnalysis where a: "ctype a = inferColumnType utcHost (columnValues ''x'' (cleanedData ?A))"
      "missingCount a = missingCountOf (columnValues ''x'' (cleanedData ?A))"
      "0 < missingCount a \<and> (ctype a = NUMERIC \<or> ctype a = CATEGORICAL \<or> ctype a = DATE)
       \<longrightarrow> (\<exists>act. actions (processColumn utcHost ''x'' ?A) = actions ?A @ [act]
              \<and> column act = ''x'')"
    using C3_cleaning_action_iff [where rt = utcHost and header = "''x''" and st = ?A,
        THEN conjunct1]
    by blast
  have "inferColumnType utcHost (columnValues ''x'' (cleanedData ?A)) = NUMERIC"
    by code_simp
  moreover have "missingCountOf (columnValues ''x'' (cleanedData ?A)) = 1"
    by code_simp
  ultimately have 1: "\<exists>act. actions (processColumn utcHost ''x'' ?A) = [act] \<and> column act = ''x''"
    using a by (simp add: initialWork_def)
  obtain b :: ColumnAnalysis where b: "ctype b = inferColumnType utcHost (columnValues ''t'' (cleanedData ?T))"
      "ctype b = TEXT \<or> ctype b = UNKNOWN \<longrightarrow>
         actions (processColumn utcHost ''t'' ?T) = actions ?T
         \<and> columnValues ''t'' (cleanedData (processColumn utcHost ''t'' ?T))
             = columnValues ''t'' (cleanedData ?T)"
    using C3_cleaning_action_iff [where rt = utcHost and header = "''t''" and st = ?T,
        THEN conjunct1]
    by blast
  have "inferColumnType utcHost (columnValues ''t'' (cleanedData ?T)) = TEXT"
    by code_simp
  moreover have "columnValues ''t'' (cleanedData ?T) = [NumV 0, StrV ''hello  world'', Null]"
    by code_simp
  ultimately have 2: "actions (processColumn utcHost ''t'' ?T) = []
      \<and> columnValues ''t'' (cleanedData (processColumn utcHost ''t'' ?T))
          = [NumV 0, StrV ''hello  world'', Null]"
    using b by (simp add: initialWork_def)
  obtain report cleaned where
    ok: "processData utcHost ''a.csv'' (Complete [] scenarioA) 0 1 = Inr (report, cleaned)"
    using processData_succeeds [of scenarioA utcHost "''a.csv''" 0 1]
    by (auto simp: scenarioA_def)
  have "map name (filter (\<lambda>a. 0 < missingCount a
              \<and> (ctype a = NUMERIC \<or> ctype a = CATEGORICAL \<or> ctype a = DATE))
            (columnAnalyses (fst (projr
              (processData utcHost ''a.csv'' (Complete [] scenarioA) 0 1))))) = [''x'']"
    by code_simp
  then have "map column (cleaningActions report) = [''x'']"
    using C3_cleaning_action_iff [where rt = utcHost and fname = "''a.csv''"
        and outcome = "Complete [] scenarioA" and startTime = 0 and endTime = 1
        and report = report and cleaned = cleaned, THEN conjunct2] ok
    by simp
  with ok 1 2 show ?thesis by simp
qed

text \<open>
  \<^bold>\<open>C4.\<close> Whenever \<^verbatim>\<open>processData\<close> returns a report, the parser delivered a non-empty list
  of rows without errors, the cleaned dataset has exactly as many rows, and both row
  counters of the report equal that number.
\<close>

theorem C4_row_count_preserved:
  assumes "processData rt fname outcome startTime endTime = Inr (report, cleaned)"
  shows "\<exists>rows. outcome = Complete [] rows \<and> rows \<noteq> []
           \<and> length cleaned = length rows
           \<and> cleanedRows report = length rows \<and> initialRows report = length rows"
proof (cases outcome)
  case (Failed e)
  with assms show ?thesis by (simp add: processData_def)
next
  case (Complete errors rows)
  show ?thesis
  proof (cases errors)
    case (Cons m ms)
    with assms Complete show ?thesis by (simp add: processData_def)
  next
    case Nil
    show ?thesis
    proof (cases rows)
      case Nil
      with assms Complete \<open>errors = []\<close> show ?thesis by (simp add: processData_def)
    next
      case (Cons row0 rest)
      with assms Complete \<open>errors = []\<close> show ?thesis
        using processData_run [of rt fname row0 rest startTime endTime]
        by (auto simp: Let_def length_foldl_processColumn initialWork_def jsonClone_def)
    qed
  qed
qed

theorem C4_row_count_preserved_witness:
  "\<exists>report cleaned.
     processData utcHost ''a.csv'' (Complete [] scenarioA) 0 1 = Inr (report, cleaned)
     \<and> length cleaned = 4 \<and> cleanedRows report = 4 \<and> initialRows report = 4"
proof -
  obtain report cleaned where
    ok: "processData utcHost ''a.csv'' (Complete [] scenarioA) 0 1 = Inr (report, cleaned)"
    using processData_succeeds [of scenarioA utcHost "''a.csv''" 0 1]
    by (auto simp: scenarioA_def)
  from C4_row_count_preserved [OF ok] have
    "length cleaned = 4 \<and> cleanedRows report = 4 \<and> initialRows report = 4"
    by (auto simp: scenarioA_def)
  with ok show ?thesis by blast
qed

text \<open>
  \<^bold>\<open>C5\<close> (as amended). Take a column inferred \<open>CATEGORICAL\<close> or \<open>DATE\<close> whose pool, the
  string cells that are not blank, holds no name of a property of \<^verbatim>\<open>Object.prototype\<close>
  (nor does the empty string name one, as on every host). The mode recorded in the
  analysis, which every missing cell of the column receives, is the empty string when the
  pool is empty. Otherwise it is a member of the pool of greatest count, and among the
  keys of the count map it is the \<^emph>\<open>last\<close> of greatest count: every key after it has a
  strictly smaller count. The count map holds each value of the pool with the number of
  its occurrences; when no value is an array index its keys stand in the order of their
  first occurrence.
\<close>

theorem C5_mode_last_maximum:
  assumes "inferColumnType rt (columnValues header (cleanedData st)) = CATEGORICAL
         \<or> inferColumnType rt (columnValues header (cleanedData st)) = DATE"
    and "\<forall>s \<in> set (stringValuesOf (columnValues header (cleanedData st))).
           objectPrototype rt s = None"
    and "objectPrototype rt [] = None"
  shows "\<exists>a md pool. analyses (processColumn rt header st) = analyses st @ [a]
     \<and> mode (stats a) = Some md
     \<and> (\<forall>i < length (cleanedData st).
           isMissing (getProp header (cleanedData st ! i)) \<longrightarrow>
           getProp header (cleanedData (processColumn rt header st) ! i) = StrV md)
     \<and> pool = stringValuesOf (columnValues header (cleanedData st))
     \<and> map StrV pool =
          filter (\<lambda>v. case v of StrV s \<Rightarrow> trim s \<noteq> [] | _ \<Rightarrow> False)
            (columnValues header (cleanedData st))
     \<and> (pool = [] \<longrightarrow> md = [])
     \<and> (pool \<noteq> [] \<longrightarrow>
           md \<in> set pool
           \<and> (\<forall>v \<in> set pool. count_list pool v \<le> count_list pool md)
           \<and> (\<exists>before after. objectKeys (countsOf rt pool) = before @ md # after
                 \<and> (\<forall>k \<in> set after. count_list pool k < count_list pool md)))
     \<and> set (objectKeys (countsOf rt pool)) = set pool
     \<and> (\<forall>v \<in> set pool. map_of (countsOf rt pool) v = Some (Count (count_list pool v)))
     \<and> ((\<forall>v \<in> set pool. arrayIndex v = None) \<longrightarrow>
           objectKeys (countsOf rt pool) = rev (remdups (rev pool)))"
proof -
  let ?vals = "columnValues header (cleanedData st)"
  let ?type = "inferColumnType rt ?vals"
  let ?pool = "stringValuesOf ?vals"
  let ?md = "modeOf rt (countsOf rt ?pool)"
  let ?a = "\<lparr>name = header, ctype = ?type, missingCount = missingCountOf ?vals,
       stats = fst (cleanStage rt header ?type ?vals (missingCountOf ?vals) (cleanedData st))\<rparr>"
  note plain = assms(2)
  have a: "analyses (processColumn rt header st) = analyses st @ [?a]"
    by (simp add: processColumn_analyses)
  have md: "mode (stats ?a) = Some ?md"
    using assms(1) by (auto simp: cleanStage_mode)
  have fill: "\<forall>i < length (cleanedData st).
           isMissing (getProp header (cleanedData st ! i)) \<longrightarrow>
           getProp header (cleanedData (processColumn rt header st) ! i) = StrV ?md"
    using assms(1) by (auto simp: getProp_processColumn_header imputedType_def fillValue_def)
  have pool: "map StrV ?pool =
      filter (\<lambda>v. case v of StrV s \<Rightarrow> trim s \<noteq> [] | _ \<Rightarrow> False) ?vals"
    by (rule stringValuesOf_filter)
  have empty: "?pool = [] \<longrightarrow> ?md = []"
    by (auto simp: modeOf_empty)
  have no_blank: "[] \<notin> set ?pool"
    by (simp add: set_stringValuesOf)
  have keys_pool: "set (objectKeys (countsOf rt ?pool)) = set ?pool"
    by (rule set_keys_countsOf [OF plain])
  have counted: "\<forall>v \<in> set ?pool.
      map_of (countsOf rt ?pool) v = Some (Count (count_list ?pool v))"
    by (simp add: map_of_countsOf [OF plain])
  have last_max: "?pool \<noteq> [] \<longrightarrow>
           ?md \<in> set ?pool
           \<and> (\<forall>v \<in> set ?pool. count_list ?pool v \<le> count_list ?pool ?md)
           \<and> (\<exists>before after. objectKeys (countsOf rt ?pool) = before @ ?md # after
                 \<and> (\<forall>k \<in> set after. count_list ?pool k < count_list ?pool ?md))"
  proof
    assume ne: "?pool \<noteq> []"
    from modeOf_countsOf [OF no_blank ne plain assms(3)] obtain before after where
      split: "objectKeys (countsOf rt ?pool) = before @ ?md # after"
      and le: "\<forall>k \<in> set before. count_list ?pool k \<le> count_list ?pool ?md"
      and less: "\<forall>k \<in> set after. count_list ?pool k < count_list ?pool ?md"
      by blast
    have keys: "set ?pool = set before \<union> {?md} \<union> set after"
      using keys_pool split by auto
    then have "?md \<in> set ?pool"
      by simp
    moreover have "\<forall>v \<in> set ?pool. count_list ?pool v \<le> count_list ?pool ?md"
      using keys le less by (auto simp: less_imp_le)
    ultimately show "?md \<in> set ?pool
           \<and> (\<forall>v \<in> set ?pool. count_list ?pool v \<le> count_list ?pool ?md)
           \<and> (\<exists>before after. objectKeys (countsOf rt ?pool) = before @ ?md # after
                 \<and> (\<forall>k \<in> set after. count_list ?pool k < count_list ?pool ?md))"
      using split less by blast
  qed
  have order: "(\<forall>v \<in> set ?pool. arrayIndex v = None) \<longrightarrow>
           objectKeys (countsOf rt ?pool) = rev (remdups (rev ?pool))"
    by (simp add: keys_countsOf_insertion_order [OF plain])
  from a md fill pool empty last_max keys_pool counted order
  show ?thesis
    by (intro exI [of _ ?a] exI [of _ ?md] exI [of _ ?pool] conjI) simp_all
qed

theorem C5_mode_last_maximum_witness:
  "(\<exists>md. mode (stats (last (analyses (processColumn utcHost ''c'' (initialWork scenarioB)))))
            = Some md
        \<and> md = ''red''
        \<and> getProp ''c'' (cleanedData (processColumn utcHost ''c'' (initialWork scenarioB)) ! 12)
            = StrV md
        \<and> getProp ''c'' (cleanedData (processColumn utcHost ''c'' (initialWork scenarioB)) ! 13)
            = StrV md)
   \<and> (\<exists>md. mode (stats (last (analyses (processColumn utcHost ''d'' (initialWork tiedDates)))))
            = Some md
        \<and> md \<in> set [''2021-05-01'', ''2021-05-02'']
        \<and> getProp ''d'' (cleanedData (processColumn utcHost ''d'' (initialWork tiedDates)) ! 2)
            = StrV md)"
proof -
  let ?B = "initialWork scenarioB"
  let ?D = "initialWork tiedDates"
  let ?colours = "[''red'', ''blue'', ''red'', ''red'', ''blue'', ''red'', ''blue'',
     ''red'', ''blue'', ''red'', ''blue'', ''red'']"
  let ?dates = "[''2021-05-01'', ''2021-05-02'']"
  have typeB: "inferColumnType utcHost (columnValues ''c'' (cleanedData ?B)) = CATEGORICAL
      \<or> inferColumnType utcHost (columnValues ''c'' (cleanedData ?B)) = DATE"
    by code_simp
  have typeD: "inferColumnType utcHost (columnValues ''d'' (cleanedData ?D)) = CATEGORICAL
      \<or> inferColumnType utcHost (columnValues ''d'' (cleanedData ?D)) = DATE"
    by code_simp
  have plainB: "\<forall>s \<in> set (stringValuesOf (columnValues ''c'' (cleanedData ?B))).
      objectPrototype utcHost s = None"
    by code_simp
  have plainD: "\<forall>s \<in> set (stringValuesOf (columnValues ''d'' (cleanedData ?D))).
      objectPrototype utcHost s = None"
    by code_simp
  have host: "objectPrototype utcHost [] = None"
    by code_simp
  from C5_mode_last_maximum [OF typeB plainB host] obtain a :: ColumnAnalysis and md pool where
    a: "analyses (processColumn utcHost ''c'' ?B) = analyses ?B @ [a]"
    and md: "mode (stats a) = Some md"
    and fill: "\<forall>i < length (cleanedData ?B).
           isMissing (getProp ''c'' (cleanedData ?B ! i)) \<longrightarrow>
           getProp ''c'' (cleanedData (processColumn utcHost ''c'' ?B) ! i) = StrV md"
    and pool: "map StrV pool =
          filter (\<lambda>v. case v of StrV s \<Rightarrow> trim s \<noteq> [] | _ \<Rightarrow> False)
            (columnValues ''c'' (cleanedData ?B))"
    and best: "pool \<noteq> [] \<longrightarrow>
           md \<in> set pool \<and> (\<forall>v \<in> set pool. count_list pool v \<le> count_list pool md)"
    by blast
  have "filter (\<lambda>v. case v of StrV s \<Rightarrow> trim s \<noteq> [] | _ \<Rightarrow> False)
            (columnValues ''c'' (cleanedData ?B)) = map StrV ?colours"
    by code_simp
  from map_injective [OF trans [OF pool this]] have poolB: "pool = ?colours"
    by (simp add: inj_on_def)
  have counts: "count_list ?colours ''red'' = 7" "count_list ?colours ''blue'' = 5"
    by simp_all
  have "md \<in> set ?colours \<and> count_list ?colours ''red'' \<le> count_list ?colours md"
    using best unfolding poolB by simp
  then have red: "md = ''red''"
    using counts by auto
  have missing: "12 < length (cleanedData ?B) \<and> 13 < length (cleanedData ?B)
      \<and> isMissing (getProp ''c'' (cleanedData ?B ! 12))
      \<and> isMissing (getProp ''c'' (cleanedData ?B ! 13))"
    by code_simp
  from a have "mode (stats (last (analyses (processColumn utcHost ''c'' ?B)))) = mode (stats a)"
    by simp
  with md red fill missing have 1:
    "\<exists>md. mode (stats (last (analyses (processColumn utcHost ''c'' ?B)))) = Some md
        \<and> md = ''red''
        \<and> getProp ''c'' (cleanedData (processColumn utcHost ''c'' ?B) ! 12) = StrV md
        \<and> getProp ''c'' (cleanedData (processColumn utcHost ''c'' ?B) ! 13) = StrV md"
    by simp
  from C5_mode_last_maximum [OF typeD plainD host] obtain b :: ColumnAnalysis and md' pool' where
    b: "analyses (processColumn utcHost ''d'' ?D) = analyses ?D @ [b]"
    and md': "mode (stats b) = Some md'"
    and fill': "\<forall>i < length (cleanedData ?D).
           isMissing (getProp ''d'' (cleanedData ?D ! i)) \<longrightarrow>
           getProp ''d'' (cleanedData (processColumn utcHost ''d'' ?D) ! i) = StrV md'"
    and pool': "map StrV pool' =
          filter (\<lambda>v. case v of StrV s \<Rightarrow> trim s \<noteq> [] | _ \<Rightarrow> False)
            (columnValues ''d'' (cleanedData ?D))"
    and best': "pool' \<noteq> [] \<longrightarrow> md' \<in> set pool'"
    by blast
  have "filter (\<lambda>v. case v of StrV s \<Rightarrow> trim s \<noteq> [] | _ \<Rightarrow> False)
            (columnValues ''d'' (cleanedData ?D)) = map StrV ?dates"
    by code_simp
  from map_injective [OF trans [OF pool' this]] have poolD: "pool' = ?dates"
    by (simp add: inj_on_def)
  have member: "md' \<in> set ?dates"
    using best' unfolding poolD by simp
  have missing': "2 < length (cleanedData ?D) \<and> isMissing (getProp ''d'' (cleanedData ?D ! 2))"
    by code_simp
  from b have "mode (stats (last (analyses (processColumn utcHost ''d'' ?D)))) = mode (stats b)"
    by simp
  with md' member fill' missing' have 2:
    "\<exists>md. mode (stats (last (analyses (processColumn utcHost ''d'' ?D)))) = Some md
        \<and> md \<in> set ?dates
        \<and> getProp ''d'' (cleanedData (processColumn utcHost ''d'' ?D) ! 2) = StrV md"
    by simp
  from 1 2 show ?thesis by (rule conjI)
qed

text \<open>
  The claim C5 as stated fails in four ways. It breaks a tie towards the first key: on two
  dates that occur once each, the count map lists \<^verbatim>\<open>2021-05-01\<close> first, and the mode
  recorded and used is \<^verbatim>\<open>2021-05-02\<close>. It counts every non-empty string: with six cells
  holding one space and five holding \<^verbatim>\<open>a\<close>, the mode is \<^verbatim>\<open>a\<close>. It makes the mode a value of
  the column: with eleven cells holding one space, the mode is the empty string. And it
  makes the mode a value of greatest count whatever the values are: with seven cells
  holding \<^verbatim>\<open>constructor\<close>, then five holding \<^verbatim>\<open>blue\<close>, the count under \<^verbatim>\<open>constructor\<close> is a
  string that wins no comparison, and the mode is \<^verbatim>\<open>blue\<close>.
\<close>

theorem C5_first_key_counterexample:
  "inferColumnType utcHost (columnValues ''d'' tiedDates) = DATE
   \<and> countsOf utcHost (stringValuesOf (columnValues ''d'' tiedDates))
       = [(''2021-05-01'', Count 1), (''2021-05-02'', Count 1)]
   \<and> mode (stats (last (analyses (processColumn utcHost ''d'' (initialWork tiedDates)))))
       = Some ''2021-05-02''
   \<and> mode (stats (last (analyses (processColumn utcHost ''d'' (initialWork tiedDates)))))
       \<noteq> Some (hd (objectKeys (countsOf utcHost (stringValuesOf (columnValues ''d'' tiedDates)))))
   \<and> getProp ''d'' (cleanedData (processColumn utcHost ''d'' (initialWork tiedDates)) ! 2)
       = StrV ''2021-05-02''
   \<and> inferColumnType utcHost (columnValues ''c'' spacesAndA) = CATEGORICAL
   \<and> count_list (columnValues ''c'' spacesAndA) (StrV '' '') = 6
   \<and> count_list (columnValues ''c'' spacesAndA) (StrV ''a'') = 5
   \<and> mode (stats (last (analyses (processColumn utcHost ''c'' (initialWork spacesAndA)))))
       = Some ''a''
   \<and> inferColumnType utcHost (columnValues ''c'' onlySpaces) = CATEGORICAL
   \<and> count_list (columnValues ''c'' onlySpaces) (StrV []) = 0
   \<and> mode (stats (last (analyses (processColumn utcHost ''c'' (initialWork onlySpaces)))))
       = Some []
   \<and> inferColumnType utcHost (columnValues ''c'' constructorBlue) = CATEGORICAL
   \<and> count_list (columnValues ''c'' constructorBlue) (StrV ''constructor'') = 7
   \<and> count_list (columnValues ''c'' constructorBlue) (StrV ''blue'') = 5
   \<and> countsOf utcHost (stringValuesOf (columnValues ''c'' constructorBlue))
       = [(''constructor'', Text ''function Object() { [native code] }1111111''),
          (''blue'', Count 5)]
   \<and> mode (stats (last (analyses (processColumn utcHost ''c'' (initialWork constructorBlue)))))
       = Some ''blue''"
  by code_simp

text \<open>
  \<^bold>\<open>C6.\<close> An iteration for a column inferred \<open>DATE\<close> logs exactly one feature entry, with
  the three new names, whatever the rows hold. The cell it reads in a row is the cell after
  imputation. When that cell gives a valid date, the row gets the year, the month of the
  host plus one, and the day of the month; when it does not, no property of the row other
  than the column itself differs from before the iteration.
\<close>

theorem C6_date_features:
  assumes "inferColumnType rt (columnValues header (cleanedData st)) = DATE"
  shows "features (processColumn rt header st) = features st @
      [\<lparr>sourceColumn = header,
        newColumns = [header @ ''_year'', header @ ''_month'', header @ ''_day''],
        description = ''Extracted date parts''\<rparr>]
   \<and> (\<forall>i < length (cleanedData st).
        getProp header (cleanedData (processColumn rt header st) ! i) =
          (if isMissing (getProp header (cleanedData st ! i))
           then fillValue rt DATE (columnValues header (cleanedData st))
           else getProp header (cleanedData st ! i)))
   \<and> (\<forall>i < length (cleanedData st).
        (case newDate rt (getProp header (cleanedData (processColumn rt header st) ! i)) of
           Some t \<Rightarrow>
             getProp (header @ ''_year'') (cleanedData (processColumn rt header st) ! i)
               = NumV (of_int (getFullYear rt t))
             \<and> getProp (header @ ''_month'') (cleanedData (processColumn rt header st) ! i)
               = NumV (of_int (getMonth rt t + 1))
             \<and> getProp (header @ ''_day'') (cleanedData (processColumn rt header st) ! i)
               = NumV (of_int (getDate rt t))
         | None \<Rightarrow>
             (\<forall>k. k \<noteq> header \<longrightarrow>
                map_of (cleanedData (processColumn rt header st) ! i) k
                  = map_of (cleanedData st ! i) k)))"
proof (intro conjI allI impI)
  show "features (processColumn rt header st) = features st @
      [\<lparr>sourceColumn = header,
        newColumns = [header @ ''_year'', header @ ''_month'', header @ ''_day''],
        description = ''Extracted date parts''\<rparr>]"
    by (simp add: processColumn_features featureStage_infos assms)
next
  fix i assume "i < length (cleanedData st)"
  then show "getProp header (cleanedData (processColumn rt header st) ! i) =
          (if isMissing (getProp header (cleanedData st ! i))
           then fillValue rt DATE (columnValues header (cleanedData st))
           else getProp header (cleanedData st ! i))"
    by (simp add: getProp_processColumn_header assms imputedType_def)
next
  fix i assume i: "i < length (cleanedData st)"
  let ?imputed = "if 0 < missingCountOf (columnValues header (cleanedData st))
        then fillMissing header (fillValue rt DATE (columnValues header (cleanedData st)))
               (cleanedData st)
        else cleanedData st"
  have row: "cleanedData (processColumn rt header st) ! i = dateFeatures rt header (?imputed ! i)"
    using i by (simp add: processColumn_rows_DATE [OF assms])
  have before: "\<forall>k. k \<noteq> header \<longrightarrow> map_of (?imputed ! i) k = map_of (cleanedData st ! i) k"
    using i by (simp add: map_of_fillMissing)
  show "case newDate rt (getProp header (cleanedData (processColumn rt header st) ! i)) of
           Some t \<Rightarrow>
             getProp (header @ ''_year'') (cleanedData (processColumn rt header st) ! i)
               = NumV (of_int (getFullYear rt t))
             \<and> getProp (header @ ''_month'') (cleanedData (processColumn rt header st) ! i)
               = NumV (of_int (getMonth rt t + 1))
             \<and> getProp (header @ ''_day'') (cleanedData (processColumn rt header st) ! i)
               = NumV (of_int (getDate rt t))
         | None \<Rightarrow>
             (\<forall>k. k \<noteq> header \<longrightarrow>
                map_of (cleanedData (processColumn rt header st) ! i) k
                  = map_of (cleanedData st ! i) k)"
    unfolding row getProp_dateFeatures_header
    using dateFeatures_cases [of rt header "?imputed ! i"] before
    by (cases "newDate rt (getProp header (?imputed ! i))") simp_all
qed

theorem C6_date_features_witness:
  "features (processColumn utcHost ''d'' (initialWork tiedDates)) =
      [\<lparr>sourceColumn = ''d'', newColumns = [''d_year'', ''d_month'', ''d_day''],
        description = ''Extracted date parts''\<rparr>]
   \<and> getProp ''d_year'' (cleanedData (processColumn utcHost ''d'' (initialWork tiedDates)) ! 0)
       = NumV 2021
   \<and> getProp ''d_month'' (cleanedData (processColumn utcHost ''d'' (initialWork tiedDates)) ! 0)
       = NumV 5
   \<and> getProp ''d_day'' (cleanedData (processColumn utcHost ''d'' (initialWork tiedDates)) ! 0)
       = NumV 1
   \<and> getProp ''d'' (cleanedData (processColumn utcHost ''d'' (initialWork tiedDates)) ! 2)
       = StrV ''2021-05-02''
   \<and> getProp ''d_day'' (cleanedData (processColumn utcHost ''d'' (initialWork tiedDates)) ! 2)
       = NumV 2
   \<and> features (processColumn blankDateHost ''d'' (initialWork blankDates)) =
      [\<lparr>sourceColumn = ''d'', newColumns = [''d_year'', ''d_month'', ''d_day''],
        description = ''Extracted date parts''\<rparr>]
   \<and> getProp ''d'' (cleanedData (processColumn blankDateHost ''d'' (initialWork blankDates)) ! 1)
       = StrV []
   \<and> map_of (cleanedData (processColumn blankDateHost ''d'' (initialWork blankDates)) ! 1)
        ''d_year'' = None
   \<and> map_of (cleanedData (processColumn blankDateHost ''d'' (initialWork blankDates)) ! 1)
        ''n'' = Some (NumV 2)"
proof -
  let ?D = "initialWork tiedDates"
  let ?B = "initialWork blankDates"
  have typeD: "inferColumnType utcHost (columnValues ''d'' (cleanedData ?D)) = DATE"
    by code_simp
  have typeB: "inferColumnType blankDateHost (columnValues ''d'' (cleanedData ?B)) = DATE"
    by code_simp
  note D = C6_date_features [OF typeD]
  note B = C6_date_features [OF typeB]
  have len: "0 < length (cleanedData ?D)" "2 < length (cleanedData ?D)"
      "1 < length (cleanedData ?B)"
    by (simp_all add: initialWork_def tiedDates_def blankDates_def)
  have 1: "features (processColumn utcHost ''d'' ?D) =
      [\<lparr>sourceColumn = ''d'', newColumns = [''d_year'', ''d_month'', ''d_day''],
        description = ''Extracted date parts''\<rparr>]"
    using D [THEN conjunct1] by (simp add: initialWork_def)
  have 2: "features (processColumn blankDateHost ''d'' ?B) =
      [\<lparr>sourceColumn = ''d'', newColumns = [''d_year'', ''d_month'', ''d_day''],
        description = ''Extracted date parts''\<rparr>]"
    using B [THEN conjunct1] by (simp add: initialWork_def)
  have "\<not> isMissing (getProp ''d'' (cleanedData ?D ! 0))
      \<and> getProp ''d'' (cleanedData ?D ! 0) = StrV ''2021-05-01''"
    by code_simp
  with D [THEN conjunct2, THEN conjunct1, rule_format, OF len(1)]
  have cell0: "getProp ''d'' (cleanedData (processColumn utcHost ''d'' ?D) ! 0)
      = StrV ''2021-05-01''"
    by simp
  have "isMissing (getProp ''d'' (cleanedData ?D ! 2))
      \<and> fillValue utcHost DATE (columnValues ''d'' (cleanedData ?D)) = StrV ''2021-05-02''"
    by code_simp
  with D [THEN conjunct2, THEN conjunct1, rule_format, OF len(2)]
  have cell2: "getProp ''d'' (cleanedData (processColumn utcHost ''d'' ?D) ! 2)
      = StrV ''2021-05-02''"
    by simp
  have "isMissing (getProp ''d'' (cleanedData ?B ! 1))
      \<and> fillValue blankDateHost DATE (columnValues ''d'' (cleanedData ?B)) = StrV []"
    by code_simp
  with B [THEN conjunct2, THEN conjunct1, rule_format, OF len(3)]
  have cellB: "getProp ''d'' (cleanedData (processColumn blankDateHost ''d'' ?B) ! 1) = StrV []"
    by simp
  have parse: "dateParse utcHost ''2021-05-01'' = Some 1619827200000"
      "dateParse utcHost ''2021-05-02'' = Some 1619913600000"
      "dateParse blankDateHost [] = None"
    by code_simp+
  have fields: "getFullYear utcHost 1619827200000 = 2021"
      "getMonth utcHost 1619827200000 + 1 = 5"
      "getDate utcHost 1619827200000 = 1"
      "getDate utcHost 1619913600000 = 2"
    by code_simp+
  have 3: "getProp ''d_year'' (cleanedData (processColumn utcHost ''d'' ?D) ! 0) = NumV 2021
      \<and> getProp ''d_month'' (cleanedData (processColumn utcHost ''d'' ?D) ! 0) = NumV 5
      \<and> getProp ''d_day'' (cleanedData (processColumn utcHost ''d'' ?D) ! 0) = NumV 1"
    using D [THEN conjunct2, THEN conjunct2, rule_format, OF len(1)]
    by (simp add: cell0 parse fields)
  have 4: "getProp ''d_day'' (cleanedData (processColumn utcHost ''d'' ?D) ! 2) = NumV 2"
    using D [THEN conjunct2, THEN conjunct2, rule_format, OF len(2)]
    by (simp add: cell2 parse fields)
  have before: "map_of (cleanedData ?B ! 1) ''d_year'' = None"
      "map_of (cleanedData ?B ! 1) ''n'' = Some (NumV 2)"
    by code_simp+
  have 5: "map_of (cleanedData (processColumn blankDateHost ''d'' ?B) ! 1) ''d_year'' = None
      \<and> map_of (cleanedData (processColumn blankDateHost ''d'' ?B) ! 1) ''n'' = Some (NumV 2)"
    using cellB parse before B [THEN conjunct2, THEN conjunct2, rule_format, OF len(3)]
    by simp
  from 1 2 3 4 5 cell2 cellB show ?thesis by simp
qed



text \<open>
  \<^bold>\<open>C8.\<close> The imputation loop changes one thing only: a cell of the column that is
  missing becomes the fill value; every other cell of every row reads as before. In an
  iteration of the main loop, the cells of the column that are not missing keep their
  value, and the missing ones all receive the same value: the mean recorded in the
  analysis when the type is \<open>NUMERIC\<close>, the mode recorded there when it is
  \<open>CATEGORICAL\<close> or \<open>DATE\<close>.
\<close>

theorem C8_imputation_frame:
  "(\<forall>i < length rows. \<forall>k.
       getProp k (fillMissing header fill rows ! i) =
         (if k = header \<and> isMissing (getProp header (rows ! i)) then fill
          else getProp k (rows ! i)))
   \<and> length (cleanedData (processColumn rt header st)) = length (cleanedData st)
   \<and> (\<forall>i < length (cleanedData st).
         \<not> isMissing (getProp header (cleanedData st ! i)) \<longrightarrow>
         getProp header (cleanedData (processColumn rt header st) ! i)
           = getProp header (cleanedData st ! i))
   \<and> (\<exists>a. analyses (processColumn rt header st) = analyses st @ [a]
        \<and> (ctype a = NUMERIC \<longrightarrow>
             (\<exists>m. mean (stats a) = Some m
                \<and> (\<forall>i < length (cleanedData st).
                      isMissing (getProp header (cleanedData st ! i)) \<longrightarrow>
                      getProp header (cleanedData (processColumn rt header st) ! i) = NumV m)))
        \<and> (ctype a = CATEGORICAL \<or> ctype a = DATE \<longrightarrow>
             (\<exists>md. mode (stats a) = Some md
                \<and> (\<forall>i < length (cleanedData st).
                      isMissing (getProp header (cleanedData st ! i)) \<longrightarrow>
                      getProp header (cleanedData (processColumn rt header st) ! i) = StrV md))))"
proof (intro conjI)
  show "\<forall>i < length rows. \<forall>k.
       getProp k (fillMissing header fill rows ! i) =
         (if k = header \<and> isMissing (getProp header (rows ! i)) then fill
          else getProp k (rows ! i))"
    by (simp add: getProp_fillMissing)
  show "length (cleanedData (processColumn rt header st)) = length (cleanedData st)"
    by simp
  show "\<forall>i < length (cleanedData st).
         \<not> isMissing (getProp header (cleanedData st ! i)) \<longrightarrow>
         getProp header (cleanedData (processColumn rt header st) ! i)
           = getProp header (cleanedData st ! i)"
    by (simp add: getProp_processColumn_header)
  let ?vals = "columnValues header (cleanedData st)"
  let ?type = "inferColumnType rt ?vals"
  let ?a = "\<lparr>name = header, ctype = ?type, missingCount = missingCountOf ?vals,
       stats = fst (cleanStage rt header ?type ?vals (missingCountOf ?vals) (cleanedData st))\<rparr>"
  have numeric: "ctype ?a = NUMERIC \<longrightarrow>
     (\<exists>m. mean (stats ?a) = Some m
        \<and> (\<forall>i < length (cleanedData st).
              isMissing (getProp header (cleanedData st ! i)) \<longrightarrow>
              getProp header (cleanedData (processColumn rt header st) ! i) = NumV m))"
    by (simp add: cleanStage_mean getProp_processColumn_header imputedType_def fillValue_def)
  have other: "ctype ?a = CATEGORICAL \<or> ctype ?a = DATE \<longrightarrow>
     (\<exists>md. mode (stats ?a) = Some md
        \<and> (\<forall>i < length (cleanedData st).
              isMissing (getProp header (cleanedData st ! i)) \<longrightarrow>
              getProp header (cleanedData (processColumn rt header st) ! i) = StrV md))"
    by (auto simp: cleanStage_mode getProp_processColumn_header imputedType_def fillValue_def)
  have "analyses (processColumn rt header st) = analyses st @ [?a]"
    by (simp add: processColumn_analyses)
  with numeric other
  show "\<exists>a. analyses (processColumn rt header st) = analyses st @ [a]
        \<and> (ctype a = NUMERIC \<longrightarrow>
             (\<exists>m. mean (stats a) = Some m
                \<and> (\<forall>i < length (cleanedData st).
                      isMissing (getProp header (cleanedData st ! i)) \<longrightarrow>
                      getProp header (cleanedData (processColumn rt header st) ! i) = NumV m)))
        \<and> (ctype a = CATEGORICAL \<or> ctype a = DATE \<longrightarrow>
             (\<exists>md. mode (stats a) = Some md
                \<and> (\<forall>i < length (cleanedData st).
                      isMissing (getProp header (cleanedData st ! i)) \<longrightarrow>
                      getProp header (cleanedData (processColumn rt header st) ! i) = StrV md)))"
    by blast
qed

theorem C8_imputation_frame_witness:
  "getProp ''x'' (cleanedData (processColumn utcHost ''x'' (initialWork scenarioA)) ! 0) = NumV 1
   \<and> getProp ''x'' (cleanedData (processColumn utcHost ''x'' (initialWork scenarioA)) ! 2)
       = NumV (7 / 4)
   \<and> getProp ''d'' (cleanedData (processColumn utcHost ''d'' (initialWork tiedDates)) ! 2)
       = StrV ''2021-05-02''"
proof -
  let ?A = "initialWork scenarioA"
  let ?D = "initialWork tiedDates"
  note A = C8_imputation_frame [where rt = utcHost and header = "''x''" and st = ?A]
  note D = C8_imputation_frame [where rt = utcHost and header = "''d''" and st = ?D]
  have lenA: "0 < length (cleanedData ?A)" "2 < length (cleanedData ?A)"
    by (simp_all add: initialWork_def scenarioA_def)
  have lenD: "2 < length (cleanedData ?D)"
    by (simp add: initialWork_def tiedDates_def)
  have "\<not> isMissing (getProp ''x'' (cleanedData ?A ! 0))
      \<and> getProp ''x'' (cleanedData ?A ! 0) = NumV 1"
    by code_simp
  with A [THEN conjunct2, THEN conjunct2, THEN conjunct1, rule_format, OF lenA(1)]
  have 1: "getProp ''x'' (cleanedData (processColumn utcHost ''x'' ?A) ! 0) = NumV 1"
    by simp
  obtain a :: ColumnAnalysis where a: "analyses (processColumn utcHost ''x'' ?A) = analyses ?A @ [a]"
      "ctype a = NUMERIC \<longrightarrow>
         (\<exists>m. mean (stats a) = Some m
            \<and> (\<forall>i < length (cleanedData ?A).
                  isMissing (getProp ''x'' (cleanedData ?A ! i)) \<longrightarrow>
                  getProp ''x'' (cleanedData (processColumn utcHost ''x'' ?A) ! i) = NumV m))"
    using A [THEN conjunct2, THEN conjunct2, THEN conjunct2] by blast
  from a(1) have a_is: "a = last (analyses (processColumn utcHost ''x'' ?A))"
    by simp
  have evA: "ctype (last (analyses (processColumn utcHost ''x'' ?A))) = NUMERIC
      \<and> mean (stats (last (analyses (processColumn utcHost ''x'' ?A)))) = Some (7 / 4)
      \<and> isMissing (getProp ''x'' (cleanedData ?A ! 2))"
    by code_simp
  with a(2) a_is lenA(2)
  have 2: "getProp ''x'' (cleanedData (processColumn utcHost ''x'' ?A) ! 2) = NumV (7 / 4)"
    by auto
  obtain b :: ColumnAnalysis where b: "analyses (processColumn utcHost ''d'' ?D) = analyses ?D @ [b]"
      "ctype b = CATEGORICAL \<or> ctype b = DATE \<longrightarrow>
         (\<exists>md. mode (stats b) = Some md
            \<and> (\<forall>i < length (cleanedData ?D).
                  isMissing (getProp ''d'' (cleanedData ?D ! i)) \<longrightarrow>
                  getProp ''d'' (cleanedData (processColumn utcHost ''d'' ?D) ! i) = StrV md))"
    using D [THEN conjunct2, THEN conjunct2, THEN conjunct2] by blast
  from b(1) have b_is: "b = last (analyses (processColumn utcHost ''d'' ?D))"
    by simp
  have evD: "ctype (last (analyses (processColumn utcHost ''d'' ?D))) = DATE
      \<and> mode (stats (last (analyses (processColumn utcHost ''d'' ?D)))) = Some ''2021-05-02''
      \<and> isMissing (getProp ''d'' (cleanedData ?D ! 2))"
    by code_simp
  with b(2) b_is lenD
  have 3: "getProp ''d'' (cleanedData (processColumn utcHost ''d'' ?D) ! 2) = StrV ''2021-05-02''"
    by auto
  from 1 2 3 show ?thesis by simp
qed

text \<open>
  \<^bold>\<open>C9.\<close> An iteration for a column inferred \<open>TEXT\<close> measures, in every row, the text
  of the cell, where every falsy cell reads as the empty string. So a cell holding the
  number 0 gets length 0 and word count 0, exactly as a missing cell does.
\<close>

theorem C9_zero_is_empty_text:
  assumes "inferColumnType rt (columnValues header (cleanedData st)) = TEXT"
    and "i < length (cleanedData st)"
  shows "getProp (header @ ''_length'') (cleanedData (processColumn rt header st) ! i)
           = NumV (of_nat (length (textOf rt (getProp header (cleanedData st ! i)))))
   \<and> getProp (header @ ''_word_count'') (cleanedData (processColumn rt header st) ! i)
           = NumV (of_nat (wordCount (textOf rt (getProp header (cleanedData st ! i)))))
   \<and> (getProp header (cleanedData st ! i) = NumV 0
        \<or> isMissing (getProp header (cleanedData st ! i)) \<longrightarrow>
        textOf rt (getProp header (cleanedData st ! i)) = []
        \<and> getProp (header @ ''_length'') (cleanedData (processColumn rt header st) ! i) = NumV 0
        \<and> getProp (header @ ''_word_count'') (cleanedData (processColumn rt header st) ! i)
            = NumV 0)"
proof -
  let ?cell = "getProp header (cleanedData st ! i)"
  have fields:
    "getProp (header @ ''_length'') (cleanedData (processColumn rt header st) ! i)
           = NumV (of_nat (length (textOf rt ?cell)))
     \<and> getProp (header @ ''_word_count'') (cleanedData (processColumn rt header st) ! i)
           = NumV (of_nat (wordCount (textOf rt ?cell)))"
    using assms(2) textFeatures_fields [of header rt "cleanedData st ! i"]
    by (simp add: processColumn_rows_TEXT [OF assms(1)])
  have falsy: "?cell = NumV 0 \<or> isMissing ?cell \<longrightarrow> textOf rt ?cell = []"
    by (cases ?cell) auto
  have "wordCount [] = 0"
    by (simp add: wordCount_def)
  with fields falsy show ?thesis by auto
qed

theorem C9_zero_is_empty_text_witness:
  "getProp ''t_length'' (cleanedData (processColumn utcHost ''t'' (initialWork mixedText)) ! 0)
     = NumV 0
   \<and> getProp ''t_word_count''
       (cleanedData (processColumn utcHost ''t'' (initialWork mixedText)) ! 0) = NumV 0
   \<and> getProp ''t_length'' (cleanedData (processColumn utcHost ''t'' (initialWork mixedText)) ! 2)
     = NumV 0
   \<and> getProp ''t_word_count''
       (cleanedData (processColumn utcHost ''t'' (initialWork mixedText)) ! 2) = NumV 0
   \<and> getProp ''t_length'' (cleanedData (processColumn utcHost ''t'' (initialWork mixedText)) ! 1)
     = NumV 12
   \<and> getProp ''t_word_count''
       (cleanedData (processColumn utcHost ''t'' (initialWork mixedText)) ! 1) = NumV 2"
proof -
  let ?T = "initialWork mixedText"
  have type: "inferColumnType utcHost (columnValues ''t'' (cleanedData ?T)) = TEXT"
    by code_simp
  have len: "0 < length (cleanedData ?T)" "1 < length (cleanedData ?T)"
      "2 < length (cleanedData ?T)"
    by (simp_all add: initialWork_def mixedText_def)
  have cells: "getProp ''t'' (cleanedData ?T ! 0) = NumV 0"
      "isMissing (getProp ''t'' (cleanedData ?T ! 2))"
      "length (textOf utcHost (getProp ''t'' (cleanedData ?T ! 1))) = 12"
      "wordCount (textOf utcHost (getProp ''t'' (cleanedData ?T ! 1))) = 2"
    by code_simp+
  from C9_zero_is_empty_text [OF type len(1), THEN conjunct2, THEN conjunct2, rule_format]
    cells(1)
  have 0: "getProp ''t_length'' (cleanedData (processColumn utcHost ''t'' ?T) ! 0) = NumV 0
      \<and> getProp ''t_word_count'' (cleanedData (processColumn utcHost ''t'' ?T) ! 0) = NumV 0"
    by simp
  from C9_zero_is_empty_text [OF type len(3), THEN conjunct2, THEN conjunct2, rule_format]
    cells(2)
  have 2: "getProp ''t_length'' (cleanedData (processColumn utcHost ''t'' ?T) ! 2) = NumV 0
      \<and> getProp ''t_word_count'' (cleanedData (processColumn utcHost ''t'' ?T) ! 2) = NumV 0"
    by simp
  from C9_zero_is_empty_text [OF type len(2)] cells(3,4)
  have 1: "getProp ''t_length'' (cleanedData (processColumn utcHost ''t'' ?T) ! 1) = NumV 12
      \<and> getProp ''t_word_count'' (cleanedData (processColumn utcHost ''t'' ?T) ! 1) = NumV 2"
    by simp
  from 0 1 2 show ?thesis by simp
qed

text \<open>
  \<^bold>\<open>C10.\<close> A run that returns a report had a first row, and the keys of that row alone
  decide the columns: the analyses carry exactly these keys as names, in order; the
  initial column count is their number; a key outside them names no analysis, no cleaning
  action and no feature entry, and unless it is one of the names that feature synthesis
  gives to a column of the first row, its cells are those of the cloned input in every
  row. The final column count is the number of keys of the first cleaned row.
\<close>

theorem C10_columns_from_first_row:
  assumes "processData rt fname outcome startTime endTime = Inr (report, cleaned)"
  shows "\<exists>row0 rest. outcome = Complete [] (row0 # rest)
     \<and> map name (columnAnalyses report) = objectKeys row0
     \<and> initialCols report = length (objectKeys row0)
     \<and> (\<forall>k. k \<notin> set (objectKeys row0) \<longrightarrow>
           k \<notin> set (map name (columnAnalyses report))
           \<and> k \<notin> set (map column (cleaningActions report))
           \<and> k \<notin> set (map sourceColumn (featureEngineering report)))
     \<and> (\<forall>k i. i < length (row0 # rest)
           \<and> (\<forall>h \<in> set (objectKeys row0). k \<notin> set (writtenKeys h)) \<longrightarrow>
           map_of (cleaned ! i) k = map_of (jsonClone (row0 # rest) ! i) k)
     \<and> cleaned \<noteq> []
     \<and> cleanedCols report = length (objectKeys (hd cleaned))"
proof -
  obtain row0 rest where outcome: "outcome = Complete [] (row0 # rest)"
  proof (cases outcome)
    case (Failed e)
    with assms show ?thesis by (simp add: processData_def)
  next
    case (Complete errors rows)
    with assms that show ?thesis
      by (cases errors; cases rows) (simp_all add: processData_def)
  qed
  let ?start = "initialWork (jsonClone (row0 # rest))"
  let ?st = "foldl (\<lambda>st header. processColumn rt header st) ?start (objectKeys row0)"
  let ?R = "\<lparr>fileName = fname, initialRows = Suc (length rest),
           cleanedRows = Suc (length rest),
           initialCols = length (objectKeys row0),
           cleanedCols = length (objectKeys (hd (cleanedData ?st))),
           processingTime = (endTime - startTime) / 1000,
           columnAnalyses = analyses ?st,
           cleaningActions = actions ?st,
           featureEngineering = features ?st\<rparr>"
  have "processData rt fname outcome startTime endTime = Inr (?R, cleanedData ?st)"
    unfolding outcome using processData_run [of rt fname row0 rest startTime endTime]
    by (simp add: Let_def)
  from trans [OF sym [OF assms] this]
  have result: "report = ?R" "cleaned = cleanedData ?st"
    by simp_all
  have names: "map name (columnAnalyses report) = objectKeys row0"
    by (simp add: result names_foldl_processColumn initialWork_def)
  have acts: "set (map column (cleaningActions report)) \<subseteq> set (objectKeys row0)"
    using action_columns_foldl_processColumn [of rt ?start "objectKeys row0"]
    by (simp add: result initialWork_def)
  have feats: "set (map sourceColumn (featureEngineering report)) \<subseteq> set (objectKeys row0)"
    using feature_sources_foldl_processColumn [of rt ?start "objectKeys row0"]
    by (simp add: result initialWork_def)
  have len: "length (cleanedData ?start) = length (row0 # rest)"
    by (simp add: initialWork_def jsonClone_def)
  have cells: "\<forall>k i. i < length (row0 # rest)
           \<and> (\<forall>h \<in> set (objectKeys row0). k \<notin> set (writtenKeys h)) \<longrightarrow>
           map_of (cleaned ! i) k = map_of (jsonClone (row0 # rest) ! i) k"
  proof (intro allI impI)
    fix k i
    assume "i < length (row0 # rest) \<and> (\<forall>h \<in> set (objectKeys row0). k \<notin> set (writtenKeys h))"
    then have "map_of (cleanedData ?st ! i) k = map_of (cleanedData ?start ! i) k"
      using len by (intro map_of_foldl_processColumn_other) simp_all
    then show "map_of (cleaned ! i) k = map_of (jsonClone (row0 # rest) ! i) k"
      by (simp add: result initialWork_def)
  qed
  have "length cleaned = length (row0 # rest)"
    using len by (simp add: result length_foldl_processColumn)
  then have nonempty: "cleaned \<noteq> []"
    by auto
  have cols: "cleanedCols report = length (objectKeys (hd cleaned))"
       "initialCols report = length (objectKeys row0)"
    by (simp_all add: result)
  from outcome names acts feats cells nonempty cols show ?thesis
    by (intro exI [of _ row0] exI [of _ rest] conjI) auto
qed

theorem C10_columns_from_first_row_witness:
  "\<exists>report cleaned.
     processData utcHost ''a.csv'' (Complete [] raggedRows) 0 1 = Inr (report, cleaned)
     \<and> map name (columnAnalyses report) = [''x'']
     \<and> initialCols report = 1
     \<and> ''y'' \<notin> set (map name (columnAnalyses report))
     \<and> ''y'' \<notin> set (map column (cleaningActions report))
     \<and> ''y'' \<notin> set (map sourceColumn (featureEngineering report))
     \<and> map_of (cleaned ! 1) ''y'' = Some Null
     \<and> cleanedCols report = length (objectKeys (hd cleaned))"
proof -
  obtain report cleaned where
    ok: "processData utcHost ''a.csv'' (Complete [] raggedRows) 0 1 = Inr (report, cleaned)"
    using processData_succeeds [of raggedRows utcHost "''a.csv''" 0 1]
    by (auto simp: raggedRows_def)
  from C10_columns_from_first_row [OF ok] obtain row0 rest where
    rows: "Complete [] raggedRows = Complete [] (row0 # rest)"
    and names: "map name (columnAnalyses report) = objectKeys row0"
    and cols: "initialCols report = length (objectKeys row0)"
    and outside: "\<forall>k. k \<notin> set (objectKeys row0) \<longrightarrow>
           k \<notin> set (map name (columnAnalyses report))
           \<and> k \<notin> set (map column (cleaningActions report))
           \<and> k \<notin> set (map sourceColumn (featureEngineering report))"
    and cells: "\<forall>k i. i < length (row0 # rest)
           \<and> (\<forall>h \<in> set (objectKeys row0). k \<notin> set (writtenKeys h)) \<longrightarrow>
           map_of (cleaned ! i) k = map_of (jsonClone (row0 # rest) ! i) k"
    and final: "cleanedCols report = length (objectKeys (hd cleaned))"
    by blast
  from rows have row0: "row0 = [(''x'', NumV 1)]" and rest: "rest = [[(''x'', Null), (''y'', Null)]]"
    by (simp_all add: raggedRows_def)
  have keys: "objectKeys row0 = [''x'']"
    by (simp add: row0 objectKeys_def)
  have "map_of (cleaned ! 1) ''y'' = map_of (jsonClone (row0 # rest) ! 1) ''y''"
    using cells [rule_format, of 1 "''y''"]
    by (simp add: keys rest writtenKeys_def)
  also have "\<dots> = Some Null"
    by (simp add: row0 rest jsonClone_def)
  finally have y: "map_of (cleaned ! 1) ''y'' = Some Null" .
  from outside [rule_format, of "''y''"] have out: "''y'' \<notin> set (map name (columnAnalyses report))"
      "''y'' \<notin> set (map column (cleaningActions report))"
      "''y'' \<notin> set (map sourceColumn (featureEngineering report))"
    by (simp_all add: keys)
  show ?thesis
  proof (intro exI conjI)
    show "processData utcHost ''a.csv'' (Complete [] raggedRows) 0 1 = Inr (report, cleaned)"
      by (fact ok)
    show "map name (columnAnalyses report) = [''x'']"
      using names keys by simp
    show "initialCols report = 1"
      using cols keys by simp
    show "map_of (cleaned ! 1) ''y'' = Some Null"
      by (fact y)
    show "cleanedCols report = length (objectKeys (hd cleaned))"
      by (fact final)
  qed (fact out)+
qed

end
